theory Spec2Isabelle
  imports Complex_Main
begin

section \<open>Data model\<close>

text \<open>
  The development embeds \<^verbatim>\<open>obspy/realtime/rttrace.py\<close>: the class \<^verbatim>\<open>RtTrace\<close> with its
  methods \<^verbatim>\<open>append\<close> and \<^verbatim>\<open>registerRtProcess\<close>, and the helper \<^verbatim>\<open>_splitTrace\<close>.
  Python floats (time stamps, sampling rate, calibration factor, sample values) are
  modelled as real numbers, so rounding of the floating-point unit is abstracted away;
  Python objects that are shared by reference (the caller's packet, the \<^verbatim>\<open>RtMemory\<close>
  instances) live in explicit stores and are named by references.
\<close>

type_synonym ref = nat

text \<open>
  The dtype of a numpy array. \<open>Float32\<close> is single precision in the byte order of the
  host (what \<^verbatim>\<open>np.float32\<close> denotes), \<open>Float32_swapped\<close> single precision in the other
  byte order; the two strings \<^verbatim>\<open>'>f4'\<close> and \<^verbatim>\<open>'<f4'\<close> denote these two, in an order that
  depends on the host.
\<close>

datatype dtype = Float32 | Float32_swapped | Float64 | Int32 | Int64

record ndarray =
  dtype :: dtype
  vals :: "real list"

type_synonym options = "(string \<times> real) list"

datatype error =
    TypeError_TraceID string string
  | TypeError_SamplingRate real real
  | TypeError_Calib real real
  | TypeError_DataType dtype dtype
  | TypeError_Overlap real real real real real
  | TypeError_Gap real real real real real
  | ZeroDivisionError
  | KeyError string
  | NotImplementedError string
  | ValueError real
  | ProcessError string

text \<open>
  \<open>TypeError_Overlap\<close> and \<open>TypeError_Gap\<close> are the \<^verbatim>\<open>TypeError(msg)\<close> of lines 240 and 248;
  their arguments are the values formatted into \<^verbatim>\<open>msg\<close>: the size in samples, the end time
  of the buffer, the start time of the packet, \<^verbatim>\<open>diff\<close> and \<^verbatim>\<open>1.0 / sr\<close>.
  \<open>ProcessError\<close> is an exception raised inside a processing function, which \<^verbatim>\<open>append\<close>
  lets through as it is.
\<close>

text \<open>
  Modelled from the spec: the header class \<^verbatim>\<open>Stats\<close> and the class \<^verbatim>\<open>Trace\<close> of \<^verbatim>\<open>obspy.core\<close>
  are not among the sources. A series holds its samples and a header with the channel
  identity (network, station, location, channel), the sample rate, the calibration
  factor, the start time and the history of the processing; its dtype is that of the
  array of samples.
\<close>

record Stats =
  network :: string
  station :: string
  location :: string
  channel :: string
  sampling_rate :: real
  calib :: real
  starttime :: real
  processing_info :: "(string \<times> options) list"

record Trace =
  data :: ndarray
  stats :: Stats

text \<open>
  Modelled from the spec: the header field \<^verbatim>\<open>npts\<close> of \<^verbatim>\<open>obspy.core\<close>. The sample count of
  a series is the length of its samples.
\<close>

definition npts :: "'a Trace_scheme \<Rightarrow> nat" where
  "npts tr = length (vals (data tr))"

text \<open>
  Modelled from the spec: the header field \<^verbatim>\<open>delta\<close> of \<^verbatim>\<open>obspy.core\<close>, the sample interval
  \<open>1 / sample_rate\<close>.
\<close>

definition stats_delta :: "Stats \<Rightarrow> real" where
  "stats_delta st = (if sampling_rate st = 0 then 0 else 1 / sampling_rate st)"

text \<open>
  Modelled from the spec: the header field \<^verbatim>\<open>endtime\<close> of \<^verbatim>\<open>obspy.core\<close>. The end time is
  \<open>start_time + (len(samples) - 1) / sample_rate\<close>.
\<close>

definition endtime :: "'a Trace_scheme \<Rightarrow> real" where
  "endtime tr = starttime (stats tr) + (real (npts tr) - 1) * stats_delta (stats tr)"

text \<open>
  Modelled from the spec: \<^verbatim>\<open>Trace.getId\<close> of \<^verbatim>\<open>obspy.core\<close>. The identity of a series is
  its network, station, location and channel; here they are joined by dots.
\<close>

definition getId :: "'a Trace_scheme \<Rightarrow> string" where
  "getId tr = network (stats tr) @ ''.'' @ station (stats tr) @ ''.'' @
     location (stats tr) @ ''.'' @ channel (stats tr)"

text \<open>
  Modelled from the spec: the class \<^verbatim>\<open>RtMemory\<close> of \<^verbatim>\<open>obspy.realtime.rtmemory\<close> is not
  among the sources. A memory instance is a slot of carry-over state of one transform
  (its input and output history); a freshly created instance is empty.
\<close>

record RtMemory =
  initialized :: bool
  mem_input :: "real list"
  mem_output :: "real list"

text \<open>
  Modelled from the spec: the constructor \<^verbatim>\<open>RtMemory()\<close>, which gives a freshly
  initialized, empty memory instance.
\<close>

definition RtMemory_init :: RtMemory where
  "RtMemory_init = \<lparr>initialized = False, mem_input = [], mem_output = []\<rparr>"

text \<open>
  A processing function is either a callable given by the caller, which maps an array
  and the options to an array, or the name of a predefined function of
  \<^verbatim>\<open>obspy.realtime.signal\<close>, which receives the packet, the list of its memory slots and
  the options, and may update the memory instances. Either may raise: the result
  \<open>Inl msg\<close> is an exception raised inside the function.
\<close>

datatype process =
    Callable string "ndarray \<Rightarrow> options \<Rightarrow> string + ndarray"
  | Predefined string

type_synonym entry = "process \<times> options \<times> ref list option"

type_synonym rtfunc =
  "Trace \<Rightarrow> ref list option \<Rightarrow> options \<Rightarrow> RtMemory list \<Rightarrow> (string + ndarray) \<times> RtMemory list"

record RtTrace = Trace +
  max_length :: "real option"
  have_appended_data :: bool
  processing :: "entry list"

text \<open>
  The state a call works on: the \<^verbatim>\<open>RtTrace\<close> itself, the \<^verbatim>\<open>Trace\<close> objects of the caller
  (a packet is passed by reference) and the heap of \<^verbatim>\<open>RtMemory\<close> instances, where a
  reference is an index and a new instance is added at the end.
\<close>

record world =
  rt :: RtTrace
  traces :: "ref \<Rightarrow> Trace"
  heap :: "RtMemory list"

section \<open>RtTrace.append\<close>

subsection \<open>Lines 188-189: conversion of f4 data to float32\<close>

definition coerce_float32 :: "Trace \<Rightarrow> Trace" where
  "coerce_float32 trace =
     (if dtype (data trace) = Float32_swapped \<or> dtype (data trace) = Float32
      then trace\<lparr>data := \<lparr>dtype = Float32, vals = vals (data trace)\<rparr>\<rparr>
      else trace)"

subsection \<open>Lines 192-211: sanity checks\<close>

text \<open>
  The result is the exception raised, if any. A packet is a \<^verbatim>\<open>Trace\<close> by its type here, so
  the test of line 193 has no branch.
\<close>

definition sanity_checks :: "RtTrace \<Rightarrow> Trace \<Rightarrow> error option" where
  "sanity_checks self trace =
     (if have_appended_data self then
        if getId self \<noteq> getId trace
          then Some (TypeError_TraceID (getId self) (getId trace))
        else if sampling_rate (stats self) \<noteq> sampling_rate (stats trace)
          then Some (TypeError_SamplingRate (sampling_rate (stats self))
                 (sampling_rate (stats trace)))
        else if calib (stats self) \<noteq> calib (stats trace)
          then Some (TypeError_Calib (calib (stats self)) (calib (stats trace)))
        else if dtype (data self) \<noteq> dtype (data trace)
          then Some (TypeError_DataType (dtype (data self)) (dtype (data trace)))
        else None
      else None)"

subsection \<open>Lines 215-261: check of the times\<close>

text \<open>
  \<^verbatim>\<open>1.0 / sr\<close> on Python floats raises \<^verbatim>\<open>ZeroDivisionError\<close> when \<^verbatim>\<open>sr\<close> is zero.
\<close>

definition py_div :: "real \<Rightarrow> real \<Rightarrow> error + real" where
  "py_div a b = (if b = 0 then Inl ZeroDivisionError else Inr (a / b))"

text \<open>
  The result is the flag \<^verbatim>\<open>gap_or_overlap\<close> and the \<^verbatim>\<open>RtTrace\<close> with its start time
  corrected (line 258), or the exception raised. Printing is not modelled, but the
  division that \<^verbatim>\<open>verbose\<close> evaluates for its message is. \<open>delta\<close> and the comparisons
  with the tolerance are over the reals: where the exact \<open>delta\<close> lies at \<open>-0.1\<close> or
  \<open>0.1\<close>, or within the rounding of the floating-point operations of it, the floats of
  the code may fall on the other side of the comparison.
\<close>

definition check_times ::
  "RtTrace \<Rightarrow> Trace \<Rightarrow> bool \<Rightarrow> bool \<Rightarrow> error + (bool \<times> RtTrace)" where
  "check_times self trace gap_overlap_check verbose =
     (if have_appended_data self then
        let sr = sampling_rate (stats self);
            diff = starttime (stats trace) - endtime self;
            delta = diff * sr - 1
        in case (if verbose then py_div 1 sr else Inr 0) of
             Inl e \<Rightarrow> Inl e
           | Inr _ \<Rightarrow>
          (case (if delta < - 0.1 then
                   (case py_div 1 sr of
                      Inl e \<Rightarrow> Inl e
                    | Inr dt \<Rightarrow>
                        if gap_overlap_check
                        then Inl (TypeError_Overlap (- delta) (endtime self)
                               (starttime (stats trace)) diff dt)
                        else Inr True)
                 else Inr False) of
             Inl e \<Rightarrow> Inl e
           | Inr gap_or_overlap1 \<Rightarrow>
          (case (if delta > 0.1 then
                   (case py_div 1 sr of
                      Inl e \<Rightarrow> Inl e
                    | Inr dt \<Rightarrow>
                        if gap_overlap_check
                        then Inl (TypeError_Gap delta (endtime self)
                               (starttime (stats trace)) diff dt)
                        else Inr True)
                 else Inr gap_or_overlap1) of
             Inl e \<Rightarrow> Inl e
           | Inr gap_or_overlap \<Rightarrow>
               if gap_or_overlap then Inr (True, self)
               else (case py_div 1 sr of
                       Inl e \<Rightarrow> Inl e
                     | Inr dt \<Rightarrow>
                         Inr (False, self\<lparr>stats := (stats self)
                           \<lparr>starttime := starttime (stats self) + diff - dt\<rparr>\<rparr>))))
      else Inr (False, self))"

subsection \<open>Lines 264-279: the registered processing\<close>

text \<open>
  The table of lines 20-27. The functions themselves belong to the module
  \<^verbatim>\<open>obspy.realtime.signal\<close>, which is not among the sources: \<open>signal\<close> maps the name of
  an attribute of that module to the function. The order of the list is the order of
  the source text; Python iterates over the dictionary in the order of its hash table.
\<close>

definition REALTIME_PROCESS_FUNCTIONS ::
  "(string \<Rightarrow> rtfunc) \<Rightarrow> (string \<times> rtfunc \<times> nat) list" where
  "REALTIME_PROCESS_FUNCTIONS signal =
     [(''scale'', signal ''scale'', 0),
      (''integrate'', signal ''integrate'', 1),
      (''differentiate'', signal ''differentiate'', 1),
      (''boxcar'', signal ''boxcar'', 1),
      (''tauc'', signal ''tauc'', 2),
      (''mwpintegral'', signal ''mwpIntegral'', 1)]"

definition lower_char :: "char \<Rightarrow> char" where
  "lower_char c =
     (if (65::nat) \<le> of_char c \<and> of_char c \<le> (90::nat)
      then char_of (of_char c + (32::nat)) else c)"

definition lower :: "string \<Rightarrow> string" where
  "lower s = map lower_char s"

text \<open>
  Lines 269-270: \<^verbatim>\<open>for n in range(len(rtmemory_list)): rtmemory_list[n] = RtMemory()\<close>.
  Each round creates an instance, which gets the next reference of the heap.
\<close>

fun reset_rtmemory :: "nat list \<Rightarrow> ref list \<Rightarrow> RtMemory list \<Rightarrow> ref list \<times> RtMemory list" where
  "reset_rtmemory [] rtmemory_list h = (rtmemory_list, h)"
| "reset_rtmemory (n # ns) rtmemory_list h =
     reset_rtmemory ns (rtmemory_list[n := length h]) (h @ [RtMemory_init])"

text \<open>Lines 268-270.\<close>

definition clear_memory ::
  "bool \<Rightarrow> ref list option \<Rightarrow> RtMemory list \<Rightarrow> ref list option \<times> RtMemory list" where
  "clear_memory gap_or_overlap rtmemory_list h =
     (case rtmemory_list of
        None \<Rightarrow> (None, h)
      | Some l \<Rightarrow>
          if gap_or_overlap
          then (case reset_rtmemory [0..<length l] l h of (l', h') \<Rightarrow> (Some l', h'))
          else (Some l, h))"

text \<open>
  Lines 273-279: the call of the processing function; its result is assigned to
  \<^verbatim>\<open>trace.data\<close>, the data of the caller's packet.
\<close>

definition set_data :: "ref \<Rightarrow> ndarray \<Rightarrow> world \<Rightarrow> world" where
  "set_data p d w = w\<lparr>traces := (traces w)(p := (traces w p)\<lparr>data := d\<rparr>)\<rparr>"

definition invoke_process ::
  "(string \<Rightarrow> rtfunc) \<Rightarrow> ref \<Rightarrow> entry \<Rightarrow> world \<Rightarrow> (error + unit) \<times> world" where
  "invoke_process signal p proc w =
     (case proc of (process_name, opts, rtmemory_list) \<Rightarrow>
        (case process_name of
           Callable nm f \<Rightarrow>
             (case f (data (traces w p)) opts of
                Inl e \<Rightarrow> (Inl (ProcessError e), w)
              | Inr d \<Rightarrow> (Inr (), set_data p d w))
         | Predefined name \<Rightarrow>
             (case map_of (REALTIME_PROCESS_FUNCTIONS signal) (lower name) of
                None \<Rightarrow> (Inl (KeyError (lower name)), w)
              | Some (func, num) \<Rightarrow>
                  (case func (traces w p) rtmemory_list opts (heap w) of
                     (Inl e, h) \<Rightarrow> (Inl (ProcessError e), w\<lparr>heap := h\<rparr>)
                   | (Inr d, h) \<Rightarrow> (Inr (), set_data p d (w\<lparr>heap := h\<rparr>))))))"

text \<open>
  One round of the loop of line 264. The list \<^verbatim>\<open>rtmemory_list\<close> of the entry is
  updated in place, so the entry is returned with its new list.
\<close>

definition apply_process ::
  "(string \<Rightarrow> rtfunc) \<Rightarrow> bool \<Rightarrow> ref \<Rightarrow> entry \<Rightarrow> world \<Rightarrow> (error + unit) \<times> entry \<times> world" where
  "apply_process signal gap_or_overlap p proc w =
     (case proc of (process_name, opts, rtmemory_list) \<Rightarrow>
        (case clear_memory gap_or_overlap rtmemory_list (heap w) of
           (rtmemory_list', h) \<Rightarrow>
             (case invoke_process signal p (process_name, opts, rtmemory_list')
                     (w\<lparr>heap := h\<rparr>) of
                (r, w') \<Rightarrow> (r, (process_name, opts, rtmemory_list'), w'))))"

text \<open>
  The loop over \<^verbatim>\<open>self.processing\<close>: an exception ends it, and the entries keep the
  memory lists they have at that moment.
\<close>

fun run_processing ::
  "(string \<Rightarrow> rtfunc) \<Rightarrow> bool \<Rightarrow> ref \<Rightarrow> entry list \<Rightarrow> world \<Rightarrow>
     (error + unit) \<times> entry list \<times> world" where
  "run_processing signal gap_or_overlap p [] w = (Inr (), [], w)"
| "run_processing signal gap_or_overlap p (proc # procs) w =
     (case apply_process signal gap_or_overlap p proc w of
        (Inl e, proc', w') \<Rightarrow> (Inl e, proc' # procs, w')
      | (Inr _, proc', w') \<Rightarrow>
          (case run_processing signal gap_or_overlap p procs w' of
             (r, procs', w'') \<Rightarrow> (r, proc' # procs', w'')))"

subsection \<open>Lines 282-321: merge and left trim\<close>

text \<open>
  Modelled from the spec: \<^verbatim>\<open>Trace.__add__\<close> of the series container is not among the
  sources. \<^verbatim>\<open>append\<close> calls it with method 0, no interpolation samples, fill value
  \<^verbatim>\<open>'latest'\<close> and the sanity checks on: the checks of identity, sample rate,
  calibration and dtype run, and the packet is concatenated onto the buffer with no
  interpolation and no fill; the result keeps the header of the buffer.
\<close>

definition Trace_add :: "'a Trace_scheme \<Rightarrow> Trace \<Rightarrow> error + Trace" where
  "Trace_add self trace =
     (if getId self \<noteq> getId trace
        then Inl (TypeError_TraceID (getId self) (getId trace))
      else if sampling_rate (stats self) \<noteq> sampling_rate (stats trace)
        then Inl (TypeError_SamplingRate (sampling_rate (stats self))
               (sampling_rate (stats trace)))
      else if calib (stats self) \<noteq> calib (stats trace)
        then Inl (TypeError_Calib (calib (stats self)) (calib (stats trace)))
      else if dtype (data self) \<noteq> dtype (data trace)
        then Inl (TypeError_DataType (dtype (data self)) (dtype (data trace)))
      else Inr \<lparr>data = \<lparr>dtype = dtype (data self),
                         vals = vals (data self) @ vals (data trace)\<rparr>,
                stats = stats self\<rparr>)"

text \<open>
  Modelled from the spec: \<^verbatim>\<open>Trace._ltrim\<close> is not among the sources. \<^verbatim>\<open>append\<close> calls it
  with \<^verbatim>\<open>pad=False\<close> and \<^verbatim>\<open>nearest_sample=True\<close>: the samples before the sample nearest
  to the given time are removed, the start time is recomputed from the number of
  removed samples, nothing is padded and nothing is removed on the right.
\<close>

definition ltrim :: "'a Trace_scheme \<Rightarrow> real \<Rightarrow> 'a Trace_scheme" where
  "ltrim tr t =
     (let d = round ((t - starttime (stats tr)) * sampling_rate (stats tr))
      in if d > 0
         then tr\<lparr>data := (data tr)\<lparr>vals := drop (nat d) (vals (data tr))\<rparr>,
                 stats := (stats tr)\<lparr>starttime :=
                    starttime (stats tr) + real_of_int d * stats_delta (stats tr)\<rparr>\<rparr>
         else tr)"

text \<open>Python's \<^verbatim>\<open>int\<close> of a float truncates towards zero.\<close>

definition py_int :: "real \<Rightarrow> int" where
  "py_int x = (if 0 \<le> x then \<lfloor>x\<rfloor> else \<lceil>x\<rceil>)"

text \<open>
  Lines 282-320. The sample count \<^verbatim>\<open>npts\<close> that line 300 sets is the length of the
  data in this model. The product of line 306 is over the reals, so a maximum length
  for which it lies within the rounding of a half-integer may give the code one
  sample less or more. The result is the \<^verbatim>\<open>RtTrace\<close> as the statements executed so far
  have left it, also when an exception ends them.
\<close>

definition merge :: "RtTrace \<Rightarrow> Trace \<Rightarrow> (error + unit) \<times> RtTrace" where
  "merge self trace =
     (if \<not> have_appended_data self then
        (Inr (), self\<lparr>data := data trace, stats := stats trace\<rparr>)
      else
        (case Trace_add self trace of
           Inl e \<Rightarrow> (Inl e, self)
         | Inr sum_trace \<Rightarrow>
             let self1 = self\<lparr>data := data sum_trace\<rparr>
             in (case max_length self1 of
                   None \<Rightarrow> (Inr (), self1)
                 | Some ml \<Rightarrow>
                     let max_samples = py_int (ml * sampling_rate (stats self1) + 0.5)
                     in if int (npts self1) > max_samples then
                          (case py_div (real_of_int (int (npts self1) - max_samples))
                                  (sampling_rate (stats self1)) of
                             Inl e \<Rightarrow> (Inl e, self1)
                           | Inr off \<Rightarrow>
                               (Inr (), ltrim self1 (starttime (stats self1) + off)))
                        else (Inr (), self1))))"

subsection \<open>Lines 162-322: append\<close>

text \<open>
  \<open>p\<close> is the reference of the caller's packet. The result is the value returned
  (line 322 returns \<^verbatim>\<open>trace\<close>, the reference it was given) or the exception, and the
  state the call leaves behind in either case.

  Lines 263-322, after the checks: the processing, the merge and the return.
\<close>

definition process_and_merge ::
  "(string \<Rightarrow> rtfunc) \<Rightarrow> ref \<Rightarrow> bool \<Rightarrow> world \<Rightarrow> (error + ref) \<times> world" where
  "process_and_merge signal p gap_or_overlap w =
     (case run_processing signal gap_or_overlap p (processing (rt w)) w of
        (r, procs, w2) \<Rightarrow>
          let w3 = w2\<lparr>rt := (rt w2)\<lparr>processing := procs\<rparr>\<rparr>
          in (case r of
                Inl e \<Rightarrow> (Inl e, w3)
              | Inr _ \<Rightarrow>
                  (case merge (rt w3) (traces w3 p) of
                     (Inl e, self'') \<Rightarrow> (Inl e, w3\<lparr>rt := self''\<rparr>)
                   | (Inr _, self'') \<Rightarrow>
                       (Inr p, w3\<lparr>rt := self''\<lparr>have_appended_data := True\<rparr>\<rparr>))))"

definition append ::
  "(string \<Rightarrow> rtfunc) \<Rightarrow> ref \<Rightarrow> bool \<Rightarrow> bool \<Rightarrow> world \<Rightarrow> (error + ref) \<times> world" where
  "append signal p gap_overlap_check verbose w =
     (let w1 = w\<lparr>traces := (traces w)(p := coerce_float32 (traces w p))\<rparr>
      in case sanity_checks (rt w1) (traces w1 p) of
           Some e \<Rightarrow> (Inl e, w1)
         | None \<Rightarrow>
        (case check_times (rt w1) (traces w1 p) gap_overlap_check verbose of
           Inl e \<Rightarrow> (Inl e, w1)
         | Inr (gap_or_overlap, self') \<Rightarrow>
             process_and_merge signal p gap_or_overlap (w1\<lparr>rt := self'\<rparr>)))"

text \<open>
  Step 4 of the example in the docstring of the class (lines 90-91): the packets are
  appended one after the other; an exception ends the loop.
\<close>

fun append_all ::
  "(string \<Rightarrow> rtfunc) \<Rightarrow> ref list \<Rightarrow> bool \<Rightarrow> bool \<Rightarrow> world \<Rightarrow> (error + unit) \<times> world" where
  "append_all signal [] gap_overlap_check verbose w = (Inr (), w)"
| "append_all signal (p # ps) gap_overlap_check verbose w =
     (case append signal p gap_overlap_check verbose w of
        (Inl e, w') \<Rightarrow> (Inl e, w')
      | (Inr _, w') \<Rightarrow> append_all signal ps gap_overlap_check verbose w')"

section \<open>RtTrace.__init__ and RtTrace.registerRtProcess\<close>

text \<open>
  Modelled from the spec: the header of a \<^verbatim>\<open>Trace\<close> made with \<^verbatim>\<open>header=None\<close> comes from
  \<^verbatim>\<open>obspy.core\<close>. Before the first append the identity is unset and the start time is
  the epoch; the nominal sample rate and the calibration factor are 1.
\<close>

definition Stats_default :: Stats where
  "Stats_default = \<lparr>network = [], station = [], location = [], channel = [],
     sampling_rate = 1, calib = 1, starttime = 0, processing_info = []\<rparr>"

text \<open>Lines 124-140. \<^verbatim>\<open>np.array([])\<close> is an empty array of double precision.\<close>

definition RtTrace_init :: "real option \<Rightarrow> error + RtTrace" where
  "RtTrace_init max_len =
     (case max_len of
        Some m \<Rightarrow>
          if m \<le> 0 then Inl (ValueError m)
          else Inr \<lparr>data = \<lparr>dtype = Float64, vals = []\<rparr>, stats = Stats_default,
                 max_length = Some m, have_appended_data = False, processing = []\<rparr>
      | None \<Rightarrow>
          Inr \<lparr>data = \<lparr>dtype = Float64, vals = []\<rparr>, stats = Stats_default,
                 max_length = None, have_appended_data = False, processing = []\<rparr>)"

text \<open>
  Lines 357-360 and 368-371: \<^verbatim>\<open>if num: rtmemory_list = [RtMemory()] * num\<close>. The
  expression \<^verbatim>\<open>RtMemory()\<close> is evaluated once, and the list repeats the reference of
  that one instance \<^verbatim>\<open>num\<close> times.
\<close>

definition new_rtmemory_list :: "nat \<Rightarrow> RtMemory list \<Rightarrow> ref list option \<times> RtMemory list" where
  "new_rtmemory_list num h =
     (if num \<noteq> 0 then (Some (replicate num (length h)), h @ [RtMemory_init])
      else (None, h))"

text \<open>Lines 364-372: the first key, in the order of the iteration, that starts with the name.\<close>

fun find_key :: "(string \<times> rtfunc \<times> nat) list \<Rightarrow> string \<Rightarrow> (string \<times> nat) option" where
  "find_key [] process_name = None"
| "find_key ((key, func, num) # rest) process_name =
     (if take (length process_name) key \<noteq> process_name
      then find_key rest process_name
      else Some (key, num))"

text \<open>
  Modelled from the spec: \<^verbatim>\<open>Trace._addProcessingInfo\<close> is not among the sources. It adds
  a record of the transform name and the options to the processing history of the
  header.
\<close>

definition addProcessingInfo :: "string \<times> options \<Rightarrow> RtTrace \<Rightarrow> RtTrace" where
  "addProcessingInfo info self =
     self\<lparr>stats := (stats self)\<lparr>processing_info := processing_info (stats self) @ [info]\<rparr>\<rparr>"

text \<open>
  Lines 324-384. The argument is a callable, with the string that \<^verbatim>\<open>"%s" % process\<close>
  gives for it, or a string.
\<close>

definition registerRtProcess ::
  "(string \<Rightarrow> rtfunc) \<Rightarrow> process \<Rightarrow> options \<Rightarrow> world \<Rightarrow> (error + nat) \<times> world" where
  "registerRtProcess signal process opts w =
     (let process_name = lower (case process of Callable nm f \<Rightarrow> nm | Predefined s \<Rightarrow> s)
      in case
           (case process of
              Callable nm f \<Rightarrow> Some (process_name, (process, opts, None), heap w)
            | Predefined s \<Rightarrow>
                (case map_of (REALTIME_PROCESS_FUNCTIONS signal) process_name of
                   Some (func, num) \<Rightarrow>
                     (case new_rtmemory_list num (heap w) of
                        (rtmemory_list, h) \<Rightarrow>
                          Some (process_name,
                                (Predefined process_name, opts, rtmemory_list), h))
                 | None \<Rightarrow>
                     (case find_key (REALTIME_PROCESS_FUNCTIONS signal) process_name of
                        None \<Rightarrow> None
                      | Some (key, num) \<Rightarrow>
                          (case new_rtmemory_list num (heap w) of
                             (rtmemory_list, h) \<Rightarrow>
                               Some (key, (Predefined key, opts, rtmemory_list), h)))))
         of
           None \<Rightarrow>
             (Inl (NotImplementedError
                (case process of Callable nm f \<Rightarrow> nm | Predefined s \<Rightarrow> s)), w)
         | Some (process_name', entry, h) \<Rightarrow>
             let self' = addProcessingInfo (process_name', opts)
                           ((rt w)\<lparr>processing := processing (rt w) @ [entry]\<rparr>)
             in (Inr (length (processing self')), w\<lparr>rt := self', heap := h\<rparr>))"

section \<open>The packet splitter\<close>

text \<open>
  Modelled from the spec: the right trim of the series container is not among the
  sources. The samples after the sample nearest to the given time are removed; nothing
  is padded and the start time stays.
\<close>

definition rtrim :: "'a Trace_scheme \<Rightarrow> real \<Rightarrow> 'a Trace_scheme" where
  "rtrim tr t =
     (let d = round ((endtime tr - t) * sampling_rate (stats tr))
      in if d > 0
         then tr\<lparr>data := (data tr)\<lparr>vals := take (nat (int (npts tr) - d)) (vals (data tr))\<rparr>\<rparr>
         else tr)"

text \<open>
  Modelled from the spec: \<^verbatim>\<open>Trace.slice\<close> is not among the sources. The series
  container slices by time: the result is an independent copy that keeps the samples
  between the two times, each taken to the nearest sample, and the header, with the
  time of the first sample kept as the start time.
\<close>

definition slice :: "Trace \<Rightarrow> real \<Rightarrow> real \<Rightarrow> Trace" where
  "slice tr tstart tend = rtrim (ltrim tr tstart) tend"

text \<open>Lines 431-434: the loop \<^verbatim>\<open>for _i in range(num)\<close>.\<close>

fun split_loop :: "Trace \<Rightarrow> int \<Rightarrow> nat \<Rightarrow> real \<Rightarrow> real \<Rightarrow> Trace list" where
  "split_loop trace packet_length 0 tstart tend = []"
| "split_loop trace packet_length (Suc n) tstart tend =
     slice trace tstart tend #
     (let tstart' = tend + stats_delta (stats trace);
          tend' = tstart' + stats_delta (stats trace) * real_of_int packet_length
      in split_loop trace packet_length n tstart' tend')"

text \<open>
  Lines 387-435. \<^verbatim>\<open>%\<close> and \<^verbatim>\<open>//\<close> on Python integers round towards minus infinity, as
  \<open>mod\<close> and \<open>div\<close> on \<open>int\<close> do, and raise when the divisor is zero; \<^verbatim>\<open>range(num)\<close> is
  empty for a negative \<^verbatim>\<open>num\<close>.
\<close>

definition splitTrace :: "Trace \<Rightarrow> int \<Rightarrow> error + Trace list" where
  "splitTrace trace num =
     (if num = 0 then Inl ZeroDivisionError
      else
        let total_length = int (npts trace);
            rest_length = total_length mod num;
            packet_length = (if rest_length \<noteq> 0 then total_length div num
                             else total_length div num - 1);
            tstart = starttime (stats trace);
            tend = tstart + stats_delta (stats trace) * real_of_int packet_length
        in Inr (split_loop trace packet_length (nat num) tstart tend))"

section \<open>Notions used in the properties\<close>

text \<open>
  The exceptions of lines 240 and 248, which the strict check of gaps and overlaps
  raises.
\<close>

fun is_continuity_error :: "error \<Rightarrow> bool" where
  "is_continuity_error (TypeError_Overlap a b c d e) = True"
| "is_continuity_error (TypeError_Gap a b c d e) = True"
| "is_continuity_error _ = False"

definition raises_continuity_error :: "(error + 'a) \<times> world \<Rightarrow> bool" where
  "raises_continuity_error res =
     (case fst res of Inl e \<Rightarrow> is_continuity_error e | Inr _ \<Rightarrow> False)"

text \<open>
  The exceptions of lines 197-211, which the sanity checks raise.
\<close>

fun is_header_mismatch :: "error \<Rightarrow> bool" where
  "is_header_mismatch (TypeError_TraceID a b) = True"
| "is_header_mismatch (TypeError_SamplingRate a b) = True"
| "is_header_mismatch (TypeError_Calib a b) = True"
| "is_header_mismatch (TypeError_DataType a b) = True"
| "is_header_mismatch _ = False"

text \<open>
  Concrete objects for the examples: a channel header at 10 Hz, a buffer that holds
  three samples from time 0 on (so that it ends at 0.2), and a packet of two samples
  that starts at a given time.
\<close>

definition example_stats :: Stats where
  "example_stats = \<lparr>network = ''BW'', station = ''RJOB'', location = [], channel = ''EHZ'',
     sampling_rate = 10, calib = 1, starttime = 0, processing_info = []\<rparr>"

definition example_buffer :: RtTrace where
  "example_buffer = \<lparr>data = \<lparr>dtype = Float32, vals = [1, 2, 3]\<rparr>, stats = example_stats,
     max_length = None, have_appended_data = True, processing = []\<rparr>"

definition example_packet :: "real \<Rightarrow> Trace" where
  "example_packet t = \<lparr>data = \<lparr>dtype = Float32, vals = [4, 5]\<rparr>,
     stats = example_stats\<lparr>starttime := t\<rparr>\<rparr>"

definition example_world :: "RtTrace \<Rightarrow> Trace \<Rightarrow> world" where
  "example_world self trace = \<lparr>rt = self, traces = (\<lambda>r. trace), heap = []\<rparr>"

definition no_signal :: "string \<Rightarrow> rtfunc" where
  "no_signal name trace rtmemory_list opts h = (Inl ''not available'', h)"

text \<open>The \<^verbatim>\<open>RtTrace\<close> that the constructor gives when no maximum length is passed.\<close>

definition example_fresh :: RtTrace where
  "example_fresh = \<lparr>data = \<lparr>dtype = Float64, vals = []\<rparr>, stats = Stats_default,
     max_length = None, have_appended_data = False, processing = []\<rparr>"

text \<open>
  Two callables for the examples: one that raises, one that doubles every sample; and
  a packet whose data come as f4 in the byte order that is not the host's.
\<close>

definition failing_process :: process where
  "failing_process = Callable ''fail'' (\<lambda>d opts. Inl ''failure'')"

definition doubling_process :: process where
  "doubling_process = Callable ''double'' (\<lambda>d opts. Inr (d\<lparr>vals := map (\<lambda>x. 2 * x) (vals d)\<rparr>))"

definition swapped_packet :: "real \<Rightarrow> Trace" where
  "swapped_packet t = \<lparr>data = \<lparr>dtype = Float32_swapped, vals = [4, 5]\<rparr>,
     stats = example_stats\<lparr>starttime := t, calib := 2\<rparr>\<rparr>"

text \<open>
  \<open>invokes signal g p procs w proc w0\<close>: while the loop of line 264 runs over \<open>procs\<close>
  from the state \<open>w\<close>, with the flag \<open>g\<close>, the processing function of an entry is
  called (lines 273-279) with the entry as \<open>proc\<close> shows it at that moment and in the
  state \<open>w0\<close>. The first entry is called after lines 268-270 have run; a later entry is
  reached when the rounds before it have returned.
\<close>

inductive invokes ::
  "(string \<Rightarrow> rtfunc) \<Rightarrow> bool \<Rightarrow> ref \<Rightarrow> entry list \<Rightarrow> world \<Rightarrow> entry \<Rightarrow> world \<Rightarrow> bool"
  for signal :: "string \<Rightarrow> rtfunc" and g :: bool and p :: ref where
  invokes_first:
    "clear_memory g rtmemory_list (heap w) = (rtmemory_list', h) \<Longrightarrow>
     invokes signal g p ((process_name, opts, rtmemory_list) # procs) w
       (process_name, opts, rtmemory_list') (w\<lparr>heap := h\<rparr>)"
| invokes_later:
    "apply_process signal g p proc w = (Inr u, proc', w') \<Longrightarrow>
     invokes signal g p procs w' proc0 w0 \<Longrightarrow>
     invokes signal g p (proc # procs) w proc0 w0"

text \<open>A memory instance that has been used, for the examples.\<close>

definition used_memory :: RtMemory where
  "used_memory = \<lparr>initialized = True, mem_input = [3], mem_output = [6]\<rparr>"

text \<open>A state with two packets for the examples: object 0 and every other object.\<close>

definition two_packets :: "RtTrace \<Rightarrow> Trace \<Rightarrow> Trace \<Rightarrow> world" where
  "two_packets self first second =
     \<lparr>rt = self, traces = (\<lambda>r. if r = 0 then first else second), heap = []\<rparr>"

text \<open>
  \<open>chunk tr len i\<close> is the part of the series \<open>tr\<close> that holds the \<open>len\<close> samples from
  sample \<open>i\<close> on (fewer at the end of the series), with the time of sample \<open>i\<close> as its
  start time. \<open>contiguous_packets hdr dt t trs\<close> says that the packets \<open>trs\<close> follow one
  another without gap or overlap from the time \<open>t\<close> on: each has the header \<open>hdr\<close> with
  the start time that follows the last sample before it, and data of the dtype \<open>dt\<close>.
\<close>

definition chunk :: "Trace \<Rightarrow> nat \<Rightarrow> nat \<Rightarrow> Trace" where
  "chunk tr len i =
     tr\<lparr>data := (data tr)\<lparr>vals := take len (drop i (vals (data tr)))\<rparr>,
        stats := (stats tr)\<lparr>starttime :=
           starttime (stats tr) + real i * stats_delta (stats tr)\<rparr>\<rparr>"

fun contiguous_packets :: "Stats \<Rightarrow> dtype \<Rightarrow> real \<Rightarrow> Trace list \<Rightarrow> bool" where
  "contiguous_packets hdr dt t [] = True"
| "contiguous_packets hdr dt t (tr # trs) =
     (stats tr = hdr\<lparr>starttime := t\<rparr> \<and> dtype (data tr) = dt
      \<and> contiguous_packets hdr dt (t + real (npts tr) * stats_delta hdr) trs)"

text \<open>A series of five samples at 10 Hz, for the examples.\<close>

definition example_series :: Trace where
  "example_series = \<lparr>data = \<lparr>dtype = Float32, vals = [1, 2, 3, 4, 5]\<rparr>, stats = example_stats\<rparr>"

text \<open>
  Predefined functions for the examples, in the place of \<^verbatim>\<open>obspy.realtime.signal\<close>:
  \<^verbatim>\<open>scale\<close> doubles every sample and has no memory; \<^verbatim>\<open>integrate\<close> adds to every sample
  what its one memory instance carries over from the packets before, and leaves the
  new carry in that instance. Every other name raises.
\<close>

definition example_scale :: rtfunc where
  "example_scale trace rtmemory_list opts h =
     (Inr ((data trace)\<lparr>vals := map (\<lambda>x. 2 * x) (vals (data trace))\<rparr>), h)"

definition example_integrate :: rtfunc where
  "example_integrate trace rtmemory_list opts h =
     (case rtmemory_list of
        Some [a] \<Rightarrow>
          if a < length h then
            (Inr ((data trace)\<lparr>vals :=
                    map (\<lambda>x. x + sum_list (mem_output (h ! a))) (vals (data trace))\<rparr>),
             h[a := \<lparr>initialized = True, mem_input = vals (data trace),
                     mem_output = [sum_list (mem_output (h ! a))
                                     + sum_list (vals (data trace))]\<rparr>])
          else (Inl ''no memory'', h)
      | _ \<Rightarrow> (Inl ''no memory'', h))"

definition example_signal :: "string \<Rightarrow> rtfunc" where
  "example_signal name =
     (if name = ''scale'' then example_scale
      else if name = ''integrate'' then example_integrate
      else no_signal name)"

text \<open>
  A buffer with the two functions registered, the second with a memory instance that
  has been used, and a packet whose data come as f4 in the other byte order.
\<close>

definition example_registry :: "entry list" where
  "example_registry =
     [(Predefined ''scale'', [], None), (Predefined ''integrate'', [], Some [0])]"

definition registry_world :: "real \<Rightarrow> world" where
  "registry_world t =
     \<lparr>rt = example_buffer\<lparr>processing := example_registry\<rparr>,
      traces = (\<lambda>r. example_packet t), heap = [used_memory]\<rparr>"

definition f4_packet :: "real \<Rightarrow> Trace" where
  "f4_packet t = \<lparr>data = \<lparr>dtype = Float32_swapped, vals = [4, 5]\<rparr>,
     stats = example_stats\<lparr>starttime := t\<rparr>\<rparr>"

text \<open>
  A registry of callables only: \<open>callable_entry\<close> is the entry that
  \<^verbatim>\<open>registerRtProcess\<close> makes for a callable (line 354), and \<open>apply_callables\<close> applies
  the callables one after the other, each to the array the one before has returned,
  until one raises.
\<close>

definition callable_entry ::
  "string \<times> (ndarray \<Rightarrow> options \<Rightarrow> string + ndarray) \<times> options \<Rightarrow> entry" where
  "callable_entry c = (case c of (nm, f, opts) \<Rightarrow> (Callable nm f, opts, None))"

fun apply_callables ::
  "(string \<times> (ndarray \<Rightarrow> options \<Rightarrow> string + ndarray) \<times> options) list \<Rightarrow> ndarray
     \<Rightarrow> string + ndarray" where
  "apply_callables [] d = Inr d"
| "apply_callables ((nm, f, opts) # cs) d =
     (case f d opts of Inl e \<Rightarrow> Inl e | Inr d' \<Rightarrow> apply_callables cs d')"

section \<open>Properties\<close>

subsection \<open>The check of the times\<close>

lemma check_times_seeded:
  assumes "have_appended_data self" and "sampling_rate (stats self) \<noteq> 0"
  shows "check_times self trace chk verbose =
    (let sr = sampling_rate (stats self);
         diff = starttime (stats trace) - endtime self;
         delta = diff * sr - 1
     in if delta < - 0.1 then
          (if chk then Inl (TypeError_Overlap (- delta) (endtime self)
                              (starttime (stats trace)) diff (1 / sr))
           else Inr (True, self))
        else if delta > 0.1 then
          (if chk then Inl (TypeError_Gap delta (endtime self)
                              (starttime (stats trace)) diff (1 / sr))
           else Inr (True, self))
        else Inr (False, self\<lparr>stats := (stats self)
               \<lparr>starttime := starttime (stats self) + (diff - 1 / sr)\<rparr>\<rparr>))"
  using assms by (simp add: check_times_def py_div_def Let_def)

lemma check_times_unseeded:
  "\<not> have_appended_data self \<Longrightarrow> check_times self trace chk verbose = Inr (False, self)"
  by (simp add: check_times_def)

lemma check_times_zero_rate:
  "have_appended_data self \<Longrightarrow> sampling_rate (stats self) = 0 \<Longrightarrow>
   check_times self trace chk verbose = Inl ZeroDivisionError"
  by (simp add: check_times_def py_div_def Let_def)

lemma invoke_process_error:
  "invoke_process signal p proc w = (Inl e, w') \<Longrightarrow> \<not> is_continuity_error e"
  by (auto simp: invoke_process_def split: prod.splits process.splits sum.splits option.splits)

lemma apply_process_error:
  "apply_process signal g p proc w = (Inl e, proc', w') \<Longrightarrow> \<not> is_continuity_error e"
  by (auto simp: apply_process_def split: prod.splits dest: invoke_process_error)

lemma run_processing_error:
  "run_processing signal g p procs w = (Inl e, procs', w') \<Longrightarrow> \<not> is_continuity_error e"
proof (induction procs arbitrary: w procs' w')
  case Nil then show ?case by simp
next
  case (Cons proc procs)
  then show ?case
    by (auto split: prod.splits sum.splits dest: apply_process_error)
qed

lemma Trace_add_error:
  "Trace_add self trace = Inl e \<Longrightarrow> \<not> is_continuity_error e"
  by (auto simp: Trace_add_def split: if_splits)

lemma merge_error:
  "merge self trace = (Inl e, self') \<Longrightarrow> \<not> is_continuity_error e"
  by (auto simp: merge_def Let_def py_div_def split: if_splits sum.splits option.splits dest: Trace_add_error)

lemma process_and_merge_error:
  "process_and_merge signal p g w = (Inl e, w') \<Longrightarrow> \<not> is_continuity_error e"
  by (auto simp: process_and_merge_def Let_def split: prod.splits sum.splits
      dest: run_processing_error merge_error)

lemma stats_coerce_float32 [simp]: "stats (coerce_float32 trace) = stats trace"
  by (simp add: coerce_float32_def)

lemma vals_coerce_float32 [simp]: "vals (data (coerce_float32 trace)) = vals (data trace)"
  by (simp add: coerce_float32_def)

lemma process_and_merge_no_continuity_error:
  "\<not> raises_continuity_error (process_and_merge signal p g w)"
  by (cases "process_and_merge signal p g w")
     (auto simp: raises_continuity_error_def split: sum.splits dest: process_and_merge_error)

text \<open>
  C1. On a buffer that has data, with a packet that passes the sanity checks and a
  sample rate that is not zero, let \<open>diff\<close> be the start time of the packet minus the
  end time of the buffer and \<open>delta = diff * sr - 1\<close>. If \<open>delta < -0.1\<close>, \<^verbatim>\<open>append\<close>
  with \<^verbatim>\<open>gap_overlap_check\<close> set raises the overlap error, which reports the size of
  the overlap in samples and the two times, and without it goes on with the flag
  \<^verbatim>\<open>gap_or_overlap\<close> set. If \<open>delta > 0.1\<close> the same holds with the gap error. For
  \<open>delta\<close> from \<open>-0.1\<close> to \<open>0.1\<close>, both included, no such error is raised, also with
  \<^verbatim>\<open>gap_overlap_check\<close> set, and the call goes on with the flag clear.
\<close>

theorem append_continuity_classification:
  assumes seeded: "have_appended_data (rt w)"
    and checks: "sanity_checks (rt w) (coerce_float32 (traces w p)) = None"
    and rate: "sampling_rate (stats (rt w)) \<noteq> 0"
  shows "(let self = rt w;
              w1 = w\<lparr>traces := (traces w)(p := coerce_float32 (traces w p))\<rparr>;
              sr = sampling_rate (stats self);
              diff = starttime (stats (traces w p)) - endtime self;
              delta = diff * sr - 1
          in append signal p gap_overlap_check verbose w =
               (if delta < - 0.1 then
                  (if gap_overlap_check
                   then (Inl (TypeError_Overlap (- delta) (endtime self)
                           (starttime (stats (traces w p))) diff (1 / sr)), w1)
                   else process_and_merge signal p True w1)
                else if delta > 0.1 then
                  (if gap_overlap_check
                   then (Inl (TypeError_Gap delta (endtime self)
                           (starttime (stats (traces w p))) diff (1 / sr)), w1)
                   else process_and_merge signal p True w1)
                else process_and_merge signal p False
                       (w1\<lparr>rt := self\<lparr>stats := (stats self)
                          \<lparr>starttime := starttime (stats self) + (diff - 1 / sr)\<rparr>\<rparr>\<rparr>))
             \<and> (if delta < - 0.1 \<or> delta > 0.1
                then raises_continuity_error (append signal p gap_overlap_check verbose w)
                       = gap_overlap_check
                else \<not> raises_continuity_error
                       (append signal p gap_overlap_check verbose w)))"
proof -
  have eq: "append signal p gap_overlap_check verbose w =
    (let w1 = w\<lparr>traces := (traces w)(p := coerce_float32 (traces w p))\<rparr> in
     case check_times (rt w) (coerce_float32 (traces w p)) gap_overlap_check verbose of
       Inl e \<Rightarrow> (Inl e, w1)
     | Inr (g, self') \<Rightarrow> process_and_merge signal p g (w1\<lparr>rt := self'\<rparr>))"
    using checks by (simp add: append_def Let_def)
  show ?thesis
    unfolding eq check_times_seeded [OF seeded rate]
    by (simp add: Let_def raises_continuity_error_def process_and_merge_no_continuity_error
        [unfolded raises_continuity_error_def])
qed

theorem append_continuity_classification_witness:
  "fst (append no_signal 0 True False (example_world example_buffer (example_packet 0.28)))
     = Inl (TypeError_Overlap 0.2 0.2 0.28 0.08 0.1)
   \<and> fst (append no_signal 0 True False (example_world example_buffer (example_packet 0.32)))
     = Inl (TypeError_Gap 0.2 0.2 0.32 0.12 0.1)
   \<and> \<not> raises_continuity_error
        (append no_signal 0 True False (example_world example_buffer (example_packet 0.305)))
   \<and> have_appended_data (rt (example_world example_buffer (example_packet 0.305)))
   \<and> sanity_checks (rt (example_world example_buffer (example_packet 0.305)))
        (coerce_float32 (traces (example_world example_buffer (example_packet 0.305)) 0)) = None
   \<and> sampling_rate (stats (rt (example_world example_buffer (example_packet 0.305)))) \<noteq> 0"
proof -
  have h: "have_appended_data (rt (example_world example_buffer (example_packet t)))"
    "sanity_checks (rt (example_world example_buffer (example_packet t)))
        (coerce_float32 (traces (example_world example_buffer (example_packet t)) 0)) = None"
    "sampling_rate (stats (rt (example_world example_buffer (example_packet t)))) \<noteq> 0" for t
    by (simp_all add: example_world_def example_buffer_def example_packet_def example_stats_def
        sanity_checks_def coerce_float32_def getId_def)
  have o: "fst (append no_signal 0 True False (example_world example_buffer (example_packet 0.28)))
     = Inl (TypeError_Overlap 0.2 0.2 0.28 0.08 0.1)"
    using append_continuity_classification [OF h(1) h(2) h(3), of "0.28" no_signal True False]
    by (simp add: Let_def endtime_def npts_def stats_delta_def example_world_def
        example_packet_def example_buffer_def example_stats_def)
  have g: "fst (append no_signal 0 True False (example_world example_buffer (example_packet 0.32)))
     = Inl (TypeError_Gap 0.2 0.2 0.32 0.12 0.1)"
    using append_continuity_classification [OF h(1) h(2) h(3), of "0.32" no_signal True False]
    by (simp add: Let_def endtime_def npts_def stats_delta_def example_world_def
        example_packet_def example_buffer_def example_stats_def)
  have c: "\<not> raises_continuity_error
        (append no_signal 0 True False (example_world example_buffer (example_packet 0.305)))"
    using append_continuity_classification [OF h(1) h(2) h(3), of "0.305" no_signal True False]
    by (auto simp add: Let_def endtime_def npts_def stats_delta_def example_world_def
        example_packet_def example_buffer_def example_stats_def)
  show ?thesis using o g c h [of "0.305"] by blast
qed

subsection \<open>The correction of the start time\<close>

lemma rt_set_data [simp]: "rt (set_data p d w) = rt w"
  by (simp add: set_data_def)

lemma heap_set_data [simp]: "heap (set_data p d w) = heap w"
  by (simp add: set_data_def)

lemma invoke_process_rt:
  "invoke_process signal p proc w = (r, w') \<Longrightarrow> rt w' = rt w"
  by (auto simp: invoke_process_def split: prod.splits process.splits sum.splits option.splits)

lemma apply_process_rt:
  "apply_process signal g p proc w = (r, proc', w') \<Longrightarrow> rt w' = rt w"
  by (auto simp: apply_process_def split: prod.splits dest!: invoke_process_rt)

lemma run_processing_rt:
  "run_processing signal g p procs w = (r, procs', w') \<Longrightarrow> rt w' = rt w"
proof (induction procs arbitrary: w r procs' w')
  case Nil then show ?case by simp
next
  case (Cons proc procs)
  then show ?case
    by (fastforce split: prod.splits sum.splits dest: apply_process_rt)
qed

lemma merge_seeded_no_max_length:
  assumes "have_appended_data self" and "max_length self = None"
    and "merge self trace = (Inr u, self')"
  shows "stats self' = stats self"
  using assms by (auto simp: merge_def Let_def split: sum.splits)

lemma process_and_merge_stats:
  assumes "have_appended_data (rt w)" and "max_length (rt w) = None"
    and "process_and_merge signal p g w = (Inr r, w')"
  shows "stats (rt w') = stats (rt w)"
proof -
  obtain res procs w2 where rp: "run_processing signal g p (processing (rt w)) w = (res, procs, w2)"
    by (metis prod_cases3)
  have rt2: "rt w2 = rt w" using run_processing_rt [OF rp] .
  from assms(3) rp obtain u self'' where
    m: "merge ((rt w)\<lparr>processing := procs\<rparr>) (traces w2 p) = (Inr u, self'')"
    and w': "w' = (w2\<lparr>rt := (rt w)\<lparr>processing := procs\<rparr>\<rparr>)\<lparr>rt := self''\<lparr>have_appended_data := True\<rparr>\<rparr>"
    by (auto simp: process_and_merge_def Let_def rt2 split: sum.splits prod.splits)
  have "stats self'' = stats ((rt w)\<lparr>processing := procs\<rparr>)"
    using merge_seeded_no_max_length [OF _ _ m] assms(1,2) by simp
  then show ?thesis by (simp add: w')
qed

subsection \<open>The first append\<close>

text \<open>
  C8. On an \<^verbatim>\<open>RtTrace\<close> without data and without registered processing, \<^verbatim>\<open>append\<close>
  succeeds for every packet and every value of \<^verbatim>\<open>gap_overlap_check\<close> and \<^verbatim>\<open>verbose\<close>: it
  raises neither a header mismatch nor a gap or overlap, the check of the times
  classifies nothing and leaves the buffer as it is, and afterwards the buffer holds
  the samples of the packet and its header as they are (the data array in float32 when
  the packet came as f4).
\<close>

theorem append_unseeded_verbatim:
  assumes "\<not> have_appended_data (rt w)" and "processing (rt w) = []"
  shows "append signal p gap_overlap_check verbose w =
           (Inr p, w\<lparr>rt := (rt w)\<lparr>data := data (coerce_float32 (traces w p)),
                                  stats := stats (traces w p),
                                  have_appended_data := True\<rparr>,
                     traces := (traces w)(p := coerce_float32 (traces w p))\<rparr>)
         \<and> vals (data (rt (snd (append signal p gap_overlap_check verbose w))))
             = vals (data (traces w p))
         \<and> stats (rt (snd (append signal p gap_overlap_check verbose w)))
             = stats (traces w p)
         \<and> check_times (rt w) (coerce_float32 (traces w p)) gap_overlap_check verbose
             = Inr (False, rt w)"
proof -
  have a: "append signal p gap_overlap_check verbose w =
           (Inr p, w\<lparr>rt := (rt w)\<lparr>data := data (coerce_float32 (traces w p)),
                                  stats := stats (traces w p),
                                  have_appended_data := True\<rparr>,
                     traces := (traces w)(p := coerce_float32 (traces w p))\<rparr>)"
    using assms
    by (simp add: append_def sanity_checks_def check_times_unseeded process_and_merge_def
        merge_def Let_def)
  show ?thesis unfolding a using assms by (simp add: check_times_unseeded)
qed

theorem append_unseeded_verbatim_witness:
  "RtTrace_init None = Inr example_fresh
   \<and> \<not> have_appended_data (rt (example_world example_fresh (example_packet 7)))
   \<and> processing (rt (example_world example_fresh (example_packet 7))) = []
   \<and> fst (append no_signal 0 True True (example_world example_fresh (example_packet 7))) = Inr 0
   \<and> data (rt (snd (append no_signal 0 True True
        (example_world example_fresh (example_packet 7)))))
       = \<lparr>dtype = Float32, vals = [4, 5]\<rparr>
   \<and> stats (rt (snd (append no_signal 0 True True
        (example_world example_fresh (example_packet 7)))))
       = example_stats\<lparr>starttime := 7\<rparr>"
proof -
  have h: "\<not> have_appended_data (rt (example_world example_fresh (example_packet 7)))"
    "processing (rt (example_world example_fresh (example_packet 7))) = []"
    by (simp_all add: example_world_def example_fresh_def)
  have i: "RtTrace_init None = Inr example_fresh"
    by (simp add: RtTrace_init_def example_fresh_def)
  show ?thesis
    using append_unseeded_verbatim [OF h, of no_signal 0 True True] h i
    by (simp add: example_world_def example_packet_def coerce_float32_def)
qed

subsection \<open>The packet of the caller\<close>

lemma traces_set_data:
  "traces (set_data p d w) = (traces w)(p := (traces w p)\<lparr>data := d\<rparr>)"
  by (simp add: set_data_def)

lemma invoke_process_traces:
  assumes "invoke_process signal p proc w = (r, w')"
  shows "(\<forall>q. q \<noteq> p \<longrightarrow> traces w' q = traces w q) \<and> stats (traces w' p) = stats (traces w p)"
  using assms
  by (auto simp: invoke_process_def traces_set_data
      split: prod.splits process.splits sum.splits option.splits)

lemma apply_process_traces:
  assumes "apply_process signal g p proc w = (r, proc', w')"
  shows "(\<forall>q. q \<noteq> p \<longrightarrow> traces w' q = traces w q) \<and> stats (traces w' p) = stats (traces w p)"
proof -
  obtain process_name opts ml where proc: "proc = (process_name, opts, ml)" by (cases proc)
  obtain ml' h where cm: "clear_memory g ml (heap w) = (ml', h)" by (cases "clear_memory g ml (heap w)")
  from assms have "invoke_process signal p (process_name, opts, ml') (w\<lparr>heap := h\<rparr>) = (r, w')"
    by (auto simp: apply_process_def proc cm split: prod.splits)
  from invoke_process_traces [OF this] show ?thesis by simp
qed

lemma run_processing_traces:
  "run_processing signal g p procs w = (r, procs', w') \<Longrightarrow>
   (\<forall>q. q \<noteq> p \<longrightarrow> traces w' q = traces w q) \<and> stats (traces w' p) = stats (traces w p)"
proof (induction procs arbitrary: w r procs' w')
  case Nil then show ?case by simp
next
  case (Cons proc procs)
  obtain r1 proc1 w1 where a: "apply_process signal g p proc w = (r1, proc1, w1)"
    by (metis prod_cases3)
  note t1 = apply_process_traces [OF a]
  show ?case
  proof (cases r1)
    case (Inl e)
    with Cons.prems a t1 show ?thesis by auto
  next
    case (Inr u)
    obtain r2 procs2 w2 where b: "run_processing signal g p procs w1 = (r2, procs2, w2)"
      by (metis prod_cases3)
    with Cons.prems a Inr have "w' = w2" by simp
    with Cons.IH [OF b] t1 show ?thesis by simp
  qed
qed

lemma process_and_merge_traces:
  assumes "process_and_merge signal p g w = (r, w')"
  shows "(\<forall>q. q \<noteq> p \<longrightarrow> traces w' q = traces w q) \<and> stats (traces w' p) = stats (traces w p)"
proof -
  obtain res procs w2 where rp: "run_processing signal g p (processing (rt w)) w = (res, procs, w2)"
    by (metis prod_cases3)
  have "traces w' = traces w2"
    using assms rp by (auto simp: process_and_merge_def Let_def split: sum.splits prod.splits)
  with run_processing_traces [OF rp] show ?thesis by simp
qed

lemma process_and_merge_returns:
  "process_and_merge signal p g w = (Inr r, w') \<Longrightarrow> r = p"
  by (auto simp: process_and_merge_def Let_def split: sum.splits prod.splits)

lemma append_cases:
  "append signal p chk verbose w =
    (case sanity_checks (rt w) (coerce_float32 (traces w p)) of
       Some e \<Rightarrow> (Inl e, w\<lparr>traces := (traces w)(p := coerce_float32 (traces w p))\<rparr>)
     | None \<Rightarrow>
       (case check_times (rt w) (coerce_float32 (traces w p)) chk verbose of
          Inl e \<Rightarrow> (Inl e, w\<lparr>traces := (traces w)(p := coerce_float32 (traces w p))\<rparr>)
        | Inr (g, self') \<Rightarrow>
            process_and_merge signal p g
              (w\<lparr>traces := (traces w)(p := coerce_float32 (traces w p)), rt := self'\<rparr>)))"
  by (simp add: append_def Let_def split: option.splits)

subsection \<open>The buffer after a failed append\<close>

lemma merge_error_kind:
  "merge self trace = (Inl e, self') \<Longrightarrow> is_header_mismatch e \<or> e = ZeroDivisionError"
  by (auto simp: merge_def Let_def py_div_def Trace_add_def
      split: if_splits sum.splits option.splits)

lemma process_and_merge_process_error:
  assumes "process_and_merge signal p g w = (Inl (ProcessError m), w')"
  shows "\<exists>procs. rt w' = (rt w)\<lparr>processing := procs\<rparr>"
proof -
  obtain res procs w2 where rp: "run_processing signal g p (processing (rt w)) w = (res, procs, w2)"
    by (metis prod_cases3)
  have rt2: "rt w2 = rt w" using run_processing_rt [OF rp] .
  have "rt w' = (rt w)\<lparr>processing := procs\<rparr>"
    using assms rp rt2
    by (auto simp: process_and_merge_def Let_def split: sum.splits prod.splits
        dest: merge_error_kind)
  then show ?thesis ..
qed

text \<open>
  C6, as stated, says that every \<^verbatim>\<open>append\<close> that raises before the merge leaves the
  buffer as it was. It fails for an exception of a processing function on a packet
  that continues the buffer: the start time has been corrected in line 258, before
  the processing runs. Here the buffer starts at 0 and ends at 0.2, the packet starts
  at 0.305 and the one registered function raises; afterwards the buffer starts at 0.005.
\<close>

theorem append_failure_counterexample:
  "fst (append no_signal 0 True False
     (example_world (example_buffer\<lparr>processing := [(failing_process, [], None)]\<rparr>)
        (example_packet 0.305))) = Inl (ProcessError ''failure'')
   \<and> starttime (stats (rt (snd (append no_signal 0 True False
     (example_world (example_buffer\<lparr>processing := [(failing_process, [], None)]\<rparr>)
        (example_packet 0.305)))))) = 0.005
   \<and> starttime (stats (rt
     (example_world (example_buffer\<lparr>processing := [(failing_process, [], None)]\<rparr>)
        (example_packet 0.305)))) = 0"
  by (simp add: append_def sanity_checks_def check_times_def py_div_def Let_def endtime_def
        npts_def stats_delta_def getId_def coerce_float32_def process_and_merge_def
        apply_process_def clear_memory_def invoke_process_def
        failing_process_def example_world_def
        example_packet_def example_buffer_def example_stats_def)

text \<open>
  C6, amended. An \<^verbatim>\<open>append\<close> that raises a header mismatch in the sanity checks, or a
  gap or overlap (which only the strict mode raises), leaves the buffer exactly as it
  was. An \<^verbatim>\<open>append\<close> that fails with the exception of a processing function leaves the
  samples, the sample count and every field of the header other than the start time
  as they were; the start time is as it was when the buffer had no data or the packet
  was a gap or an overlap, and has been shifted by \<open>diff - 1 / sample_rate\<close> when the
  packet continues the buffer. Nothing of the packet is merged.
\<close>

theorem append_failure_buffer_state:
  assumes "append signal p gap_overlap_check verbose w = (Inl e, w')"
  shows "(let self = rt w; trace = traces w p;
              sr = sampling_rate (stats self);
              diff = starttime (stats trace) - endtime self;
              delta = diff * sr - 1
          in (sanity_checks self (coerce_float32 trace) \<noteq> None
                \<longrightarrow> sanity_checks self (coerce_float32 trace) = Some e \<and> rt w' = self)
           \<and> (is_continuity_error e \<longrightarrow> gap_overlap_check \<and> rt w' = self)
           \<and> ((\<exists>m. e = ProcessError m)
                \<longrightarrow> data (rt w') = data self \<and> npts (rt w') = npts self
                  \<and> have_appended_data (rt w') = have_appended_data self
                  \<and> max_length (rt w') = max_length self
                  \<and> (stats (rt w'))\<lparr>starttime := starttime (stats self)\<rparr> = stats self
                  \<and> starttime (stats (rt w')) =
                      (if have_appended_data self \<and> - 0.1 \<le> delta \<and> delta \<le> 0.1
                       then starttime (stats self) + (diff - 1 / sr)
                       else starttime (stats self))))"
proof -
  let ?self = "rt w"
  let ?tr = "coerce_float32 (traces w p)"
  let ?w1 = "w\<lparr>traces := (traces w)(p := ?tr)\<rparr>"
  have st: "starttime (stats ?tr) = starttime (stats (traces w p))" by simp
  have A: "sanity_checks ?self ?tr \<noteq> None \<longrightarrow> sanity_checks ?self ?tr = Some e \<and> rt w' = ?self"
    using assms by (auto simp: append_cases split: option.splits)
  have B: "is_continuity_error e \<longrightarrow> gap_overlap_check \<and> rt w' = ?self"
  proof
    assume ce: "is_continuity_error e"
    have sc: "sanity_checks ?self ?tr = None"
      using assms ce by (cases e) (auto simp: append_cases sanity_checks_def split: if_splits)
    have "\<exists>e'. check_times ?self ?tr gap_overlap_check verbose = Inl e'"
    proof (cases "check_times ?self ?tr gap_overlap_check verbose")
      case (Inl e') then show ?thesis by blast
    next
      case (Inr gs)
      obtain g self' where "gs = (g, self')" by (cases gs)
      with assms sc Inr have "process_and_merge signal p g (?w1\<lparr>rt := self'\<rparr>) = (Inl e, w')"
        by (simp add: append_cases)
      from process_and_merge_error [OF this] ce show ?thesis by simp
    qed
    then obtain e' where ct: "check_times ?self ?tr gap_overlap_check verbose = Inl e'" ..
    with assms sc have e': "e' = e" and w': "w' = ?w1" by (simp_all add: append_cases)
    have seeded: "have_appended_data ?self"
      using ct by (cases "have_appended_data ?self") (simp_all add: check_times_unseeded)
    have rate: "sampling_rate (stats ?self) \<noteq> 0"
      using ct seeded e' ce
      by (cases "sampling_rate (stats ?self) = 0") (simp_all add: check_times_zero_rate)
    have "gap_overlap_check"
      using ct by (auto simp: check_times_seeded [OF seeded rate] Let_def split: if_splits)
    with w' show "gap_overlap_check \<and> rt w' = ?self" by simp
  qed
  have C: "data (rt w') = data ?self \<and> npts (rt w') = npts ?self
        \<and> have_appended_data (rt w') = have_appended_data ?self
        \<and> max_length (rt w') = max_length ?self
        \<and> (stats (rt w'))\<lparr>starttime := starttime (stats ?self)\<rparr> = stats ?self
        \<and> starttime (stats (rt w')) =
            (if have_appended_data ?self
                \<and> - 0.1 \<le> (starttime (stats (traces w p)) - endtime ?self)
                              * sampling_rate (stats ?self) - 1
                \<and> (starttime (stats (traces w p)) - endtime ?self)
                              * sampling_rate (stats ?self) - 1 \<le> 0.1
             then starttime (stats ?self)
               + (starttime (stats (traces w p)) - endtime ?self - 1 / sampling_rate (stats ?self))
             else starttime (stats ?self))"
    if pe: "e = ProcessError m" for m
  proof -
    have sc: "sanity_checks ?self ?tr = None"
      using assms pe by (auto simp: append_cases sanity_checks_def split: if_splits)
    obtain g self' where ct: "check_times ?self ?tr gap_overlap_check verbose = Inr (g, self')"
      and pm: "process_and_merge signal p g (?w1\<lparr>rt := self'\<rparr>) = (Inl (ProcessError m), w')"
    proof (cases "check_times ?self ?tr gap_overlap_check verbose")
      case (Inl e')
      with assms sc pe have "check_times ?self ?tr gap_overlap_check verbose = Inl (ProcessError m)"
        by (simp add: append_cases)
      then have False
        by (cases "have_appended_data ?self"; cases "sampling_rate (stats ?self) = 0")
           (auto simp: check_times_seeded check_times_unseeded check_times_zero_rate Let_def
             split: if_splits)
      then show ?thesis ..
    next
      case (Inr gs)
      obtain g self' where "gs = (g, self')" by (cases gs)
      with assms sc Inr pe that show ?thesis by (simp add: append_cases)
    qed
    from process_and_merge_process_error [OF pm]
    obtain procs where rt': "rt w' = self'\<lparr>processing := procs\<rparr>" by auto
    show ?thesis
    proof (cases "have_appended_data ?self")
      case False
      with ct have "self' = ?self" by (simp add: check_times_unseeded)
      with rt' False show ?thesis by (simp add: npts_def)
    next
      case True
      have rate: "sampling_rate (stats ?self) \<noteq> 0"
        using ct True
        by (cases "sampling_rate (stats ?self) = 0") (simp_all add: check_times_zero_rate)
      show ?thesis
        using ct rt' True
        by (auto simp: check_times_seeded [OF True rate] Let_def npts_def split: if_splits)
    qed
  qed
  show ?thesis unfolding Let_def using A B C by blast
qed


theorem append_failure_buffer_state_witness:
  "fst (append no_signal 0 True False (example_world example_buffer (swapped_packet 0.3)))
     = Inl (TypeError_Calib 1 2)
   \<and> rt (snd (append no_signal 0 True False
        (example_world example_buffer (swapped_packet 0.3)))) = example_buffer
   \<and> fst (append no_signal 0 True False (example_world example_buffer (example_packet 0.28)))
     = Inl (TypeError_Overlap 0.2 0.2 0.28 0.08 0.1)
   \<and> rt (snd (append no_signal 0 True False
        (example_world example_buffer (example_packet 0.28)))) = example_buffer
   \<and> fst (append no_signal 0 False False
        (example_world (example_buffer\<lparr>processing := [(failing_process, [], None)]\<rparr>)
           (example_packet 0.35))) = Inl (ProcessError ''failure'')
   \<and> data (rt (snd (append no_signal 0 False False
        (example_world (example_buffer\<lparr>processing := [(failing_process, [], None)]\<rparr>)
           (example_packet 0.35))))) = \<lparr>dtype = Float32, vals = [1, 2, 3]\<rparr>
   \<and> starttime (stats (rt (snd (append no_signal 0 False False
        (example_world (example_buffer\<lparr>processing := [(failing_process, [], None)]\<rparr>)
           (example_packet 0.35)))))) = 0"
proof -
  let ?W1 = "example_world example_buffer (swapped_packet 0.3)"
  let ?W2 = "example_world example_buffer (example_packet 0.28)"
  let ?W3 = "example_world (example_buffer\<lparr>processing := [(failing_process, [], None)]\<rparr>)
           (example_packet 0.35)"
  note defs = append_def sanity_checks_def check_times_def py_div_def Let_def endtime_def
        npts_def stats_delta_def getId_def coerce_float32_def process_and_merge_def
        apply_process_def clear_memory_def invoke_process_def
        failing_process_def example_world_def swapped_packet_def
        example_packet_def example_buffer_def example_stats_def
  have f1: "fst (append no_signal 0 True False ?W1) = Inl (TypeError_Calib 1 2)"
    by (simp add: defs)
  have f2: "fst (append no_signal 0 True False ?W2) = Inl (TypeError_Overlap 0.2 0.2 0.28 0.08 0.1)"
    by (simp add: defs)
  have f3: "fst (append no_signal 0 False False ?W3) = Inl (ProcessError ''failure'')"
    by (simp add: defs)
  have a1: "append no_signal 0 True False ?W1
      = (Inl (TypeError_Calib 1 2), snd (append no_signal 0 True False ?W1))"
    using f1 by (metis prod.collapse)
  have a2: "append no_signal 0 True False ?W2
      = (Inl (TypeError_Overlap 0.2 0.2 0.28 0.08 0.1), snd (append no_signal 0 True False ?W2))"
    using f2 by (metis prod.collapse)
  have a3: "append no_signal 0 False False ?W3
      = (Inl (ProcessError ''failure''), snd (append no_signal 0 False False ?W3))"
    using f3 by (metis prod.collapse)
  have s1: "sanity_checks (rt ?W1) (coerce_float32 (traces ?W1 0)) \<noteq> None"
    by (simp add: defs)
  have r1: "rt (snd (append no_signal 0 True False ?W1)) = example_buffer"
    using append_failure_buffer_state [OF a1, unfolded Let_def] s1
    by (simp add: example_world_def)
  have r2: "rt (snd (append no_signal 0 True False ?W2)) = example_buffer"
    using append_failure_buffer_state [OF a2, unfolded Let_def]
    by (simp add: example_world_def)
  have r3: "data (rt (snd (append no_signal 0 False False ?W3)))
        = \<lparr>dtype = Float32, vals = [1, 2, 3]\<rparr>
      \<and> starttime (stats (rt (snd (append no_signal 0 False False ?W3)))) = 0"
    using append_failure_buffer_state [OF a3, unfolded Let_def]
    by (simp add: example_world_def example_buffer_def example_stats_def example_packet_def
        endtime_def npts_def stats_delta_def)
  show ?thesis using f1 f2 f3 r1 r2 r3 by blast
qed

subsection \<open>The memory of the processing after a gap or overlap\<close>

lemma reset_rtmemory_from:
  "k \<le> length l \<Longrightarrow> n = length l - k \<Longrightarrow>
   reset_rtmemory [k..<length l] l h =
     (take k l @ [length h..<length h + n], h @ replicate n RtMemory_init)"
proof (induction n arbitrary: k l h)
  case 0
  then show ?case by simp
next
  case (Suc n)
  then have k: "k < length l" by simp
  let ?l = "l[k := length h]"
  have up: "[k..<length l] = k # [Suc k..<length ?l]"
    using k by (simp add: upt_conv_Cons)
  have ih: "reset_rtmemory [Suc k..<length ?l] ?l (h @ [RtMemory_init]) =
     (take (Suc k) ?l @ [length (h @ [RtMemory_init])..<length (h @ [RtMemory_init]) + n],
      (h @ [RtMemory_init]) @ replicate n RtMemory_init)"
    using Suc.prems k by (intro Suc.IH) simp_all
  have tk: "take (Suc k) ?l = take k l @ [length h]"
    using k by (simp add: take_Suc_conv_app_nth)
  have ups: "[length h..<length h + Suc n] = length h # [Suc (length h)..<Suc (length h) + n]"
    by (simp add: upt_conv_Cons)
  show ?case
    unfolding up reset_rtmemory.simps ih tk ups
    by (simp add: replicate_app_Cons_same)
qed

lemma reset_rtmemory_all:
  "reset_rtmemory [0..<length l] l h =
     ([length h..<length h + length l], h @ replicate (length l) RtMemory_init)"
  using reset_rtmemory_from [of 0 l "length l" h] by simp

lemma clear_memory_gap:
  "clear_memory True (Some l) h =
     (Some [length h..<length h + length l], h @ replicate (length l) RtMemory_init)"
  by (simp add: clear_memory_def reset_rtmemory_all)

lemma clear_memory_none: "clear_memory g None h = (None, h)"
  by (simp add: clear_memory_def)

lemma clear_memory_no_gap: "clear_memory False rtmemory_list h = (rtmemory_list, h)"
  by (simp add: clear_memory_def split: option.splits)

lemma invokes_fresh:
  assumes "invokes signal g p procs w proc0 w0"
  shows "g \<Longrightarrow> proc0 = (process_name, opts, Some l) \<Longrightarrow>
         distinct l \<and> (\<forall>a \<in> set l. a < length (heap w0) \<and> heap w0 ! a = RtMemory_init)"
  using assms
proof (induction rule: invokes.induct)
  case (invokes_first rtmemory_list w rtmemory_list' h pn os procs)
  then obtain l0 where l0: "rtmemory_list = Some l0"
    by (cases rtmemory_list) (auto simp: clear_memory_none)
  with invokes_first have l: "l = [length (heap w)..<length (heap w) + length l0]"
    and h: "h = heap w @ replicate (length l0) RtMemory_init"
    by (auto simp: clear_memory_gap)
  show ?case by (auto simp: l h nth_append)
next
  case (invokes_later proc w u proc' w' procs proc0 w0)
  then show ?case by simp
qed

lemma invokes_none:
  assumes "invokes signal g p procs w proc0 w0"
  shows "proc0 = (process_name, opts, None) \<Longrightarrow> proc0 \<in> set procs"
  using assms
proof (induction rule: invokes.induct)
  case (invokes_first rtmemory_list w rtmemory_list' h pn os procs)
  then have "rtmemory_list = None"
    by (cases rtmemory_list) (auto simp: clear_memory_def split: if_splits prod.splits)
  with invokes_first show ?case by simp
next
  case (invokes_later proc w u proc' w' procs proc0 w0)
  then show ?case by simp
qed

subsection \<open>Registration, retention and the returned value at concrete inputs\<close>

lemma lower_tauc: "lower ''tauc'' = ''tauc''"
  by code_simp

text \<open>
  C5 says that a registration creates as many memory slots as the table declares, each
  with an instance of its own. For \<^verbatim>\<open>'tauc'\<close>, which declares two, the list of line 359
  holds two slots, but \<^verbatim>\<open>[RtMemory()] * num\<close> creates one instance and puts the same
  reference in both: on a new \<^verbatim>\<open>RtTrace\<close> the call returns 1, the registry holds the one
  entry, the heap has a single new instance and both slots refer to it.
\<close>

theorem registerRtProcess_tauc_shares_instance:
  "fst (registerRtProcess no_signal (Predefined ''tauc'') []
          (example_world example_fresh (example_packet 0))) = Inr 1
   \<and> processing (rt (snd (registerRtProcess no_signal (Predefined ''tauc'') []
          (example_world example_fresh (example_packet 0)))))
       = [(Predefined ''tauc'', [], Some [0, 0])]
   \<and> heap (snd (registerRtProcess no_signal (Predefined ''tauc'') []
          (example_world example_fresh (example_packet 0)))) = [RtMemory_init]
   \<and> \<not> distinct [0, 0 :: ref]"
  by (simp add: registerRtProcess_def REALTIME_PROCESS_FUNCTIONS_def lower_tauc
      new_rtmemory_list_def addProcessingInfo_def Let_def example_world_def example_fresh_def
      numeral_2_eq_2)

text \<open>
  The left trim of a later append, in general: on a buffer with data, a positive
  maximum length and a positive sample rate, a merge that returns leaves at most
  \<open>round (M * sr)\<close> samples, namely the most recent ones, and the end time is that of
  the untrimmed concatenation.
\<close>

lemma py_int_round:
  assumes "0 \<le> x"
  shows "py_int (x + 1 / 2) = round x"
  using assms by (simp add: py_int_def round_def)

lemma ltrim_drop:
  assumes "round ((t - starttime (stats tr)) * sampling_rate (stats tr)) = int k" and "0 < k"
  shows "ltrim tr t =
     tr\<lparr>data := (data tr)\<lparr>vals := drop k (vals (data tr))\<rparr>,
        stats := (stats tr)\<lparr>starttime :=
           starttime (stats tr) + real k * stats_delta (stats tr)\<rparr>\<rparr>"
  using assms by (simp add: ltrim_def Let_def)

lemma merge_left_trim:
  assumes seeded: "have_appended_data self"
    and maxl: "max_length self = Some M" and M: "0 < M"
    and rate: "0 < sampling_rate (stats self)"
    and ok: "merge self trace = (Inr u, self')"
  shows "int (npts self') \<le> round (M * sampling_rate (stats self))"
    and "vals (data self') =
           drop (length (vals (data self) @ vals (data trace))
                   - nat (round (M * sampling_rate (stats self))))
             (vals (data self) @ vals (data trace))"
    and "endtime self' =
           endtime (self\<lparr>data := (data self)\<lparr>vals := vals (data self) @ vals (data trace)\<rparr>\<rparr>)"
proof -
  let ?sr = "sampling_rate (stats self)"
  let ?xs = "vals (data self) @ vals (data trace)"
  let ?ms = "round (M * ?sr)"
  have ms0: "0 \<le> ?ms" using M rate by (simp add: round_def)
  have pi: "py_int (M * ?sr + 1 / 2) = ?ms" using M rate by (intro py_int_round) simp
  from ok seeded obtain sum_trace where ta: "Trace_add self trace = Inr sum_trace"
    by (auto simp: merge_def split: sum.splits)
  then have sd: "data sum_trace = \<lparr>dtype = dtype (data self), vals = ?xs\<rparr>"
    by (auto simp: Trace_add_def split: if_splits)
  let ?self1 = "self\<lparr>data := data sum_trace\<rparr>"
  have n1: "npts ?self1 = length ?xs" by (simp add: npts_def sd)
  have e1: "endtime ?self1 =
      endtime (self\<lparr>data := (data self)\<lparr>vals := ?xs\<rparr>\<rparr>)"
    by (simp add: endtime_def npts_def sd)
  show "int (npts self') \<le> ?ms"
    and "vals (data self') = drop (length ?xs - nat ?ms) ?xs"
    and "endtime self' = endtime (self\<lparr>data := (data self)\<lparr>vals := ?xs\<rparr>\<rparr>)"
  proof (atomize (full), cases "int (length ?xs) > ?ms")
    case False
    then have "self' = ?self1"
      using ok seeded rate by (auto simp: merge_def ta maxl Let_def pi n1 py_div_def)
    with False show "int (npts self') \<le> ?ms
        \<and> vals (data self') = drop (length ?xs - nat ?ms) ?xs
        \<and> endtime self' = endtime (self\<lparr>data := (data self)\<lparr>vals := ?xs\<rparr>\<rparr>)"
      using e1 n1 by (simp add: sd)
  next
    case True
    let ?k = "length ?xs - nat ?ms"
    have k: "int ?k = int (length ?xs) - ?ms" using True ms0 by simp
    have s': "self' = ltrim ?self1 (starttime (stats ?self1)
        + real_of_int (int (npts ?self1) - ?ms) / ?sr)"
      using ok seeded rate True by (auto simp: merge_def ta maxl Let_def pi n1 py_div_def)
    have "(starttime (stats ?self1) + real_of_int (int (npts ?self1) - ?ms) / ?sr
                - starttime (stats ?self1)) * sampling_rate (stats ?self1)
          = real_of_int (int (npts ?self1) - ?ms)"
      using rate by simp
    then have "round ((starttime (stats ?self1) + real_of_int (int (npts ?self1) - ?ms) / ?sr
                - starttime (stats ?self1)) * sampling_rate (stats ?self1))
          = int (npts ?self1) - ?ms"
      by (simp only: round_of_int)
    then have r: "round ((starttime (stats ?self1)
                + real_of_int (int (npts ?self1) - ?ms) / ?sr
                - starttime (stats ?self1)) * sampling_rate (stats ?self1)) = int ?k"
      by (simp only: n1 k)
    have kpos: "0 < ?k" using True ms0 by simp
    have s'': "self' = ?self1\<lparr>data := (data ?self1)\<lparr>vals := drop ?k (vals (data ?self1))\<rparr>,
                 stats := (stats ?self1)\<lparr>starttime :=
                    starttime (stats ?self1) + real ?k * stats_delta (stats ?self1)\<rparr>\<rparr>"
      unfolding s' by (rule ltrim_drop [OF r kpos])
    have len: "length (drop ?k ?xs) = nat ?ms" using True ms0 by simp
    have dl: "stats_delta (stats self') = stats_delta (stats self)"
      by (simp add: s'' stats_delta_def)
    have st': "starttime (stats self') = starttime (stats self) + real ?k * stats_delta (stats self)"
      by (simp add: s'')
    have np: "real (npts self') = real (length ?xs) - real ?k"
      unfolding npts_def s'' by (simp add: sd of_nat_diff del: drop_append)
    have c3: "endtime self' = endtime (self\<lparr>data := (data self)\<lparr>vals := ?xs\<rparr>\<rparr>)"
      unfolding endtime_def dl st' np by (simp add: npts_def algebra_simps)
    have c2: "vals (data self') = drop ?k ?xs"
      unfolding s'' by (simp add: sd del: drop_append)
    have c1: "int (npts self') \<le> ?ms"
      unfolding npts_def c2 using len ms0 by (simp del: drop_append length_drop)
    from c1 c2 c3 show "int (npts self') \<le> ?ms
        \<and> vals (data self') = drop (length ?xs - nat ?ms) ?xs
        \<and> endtime self' = endtime (self\<lparr>data := (data self)\<lparr>vals := ?xs\<rparr>\<rparr>)"
      by blast
  qed
qed

text \<open>
  C3 says that the sample count never exceeds \<open>round (M * sr)\<close> after any sequence of
  successful appends. The left trim of lines 305-317 stands in the branch of a buffer
  that already has data, so the first append is not trimmed: with a maximum length of
  0.1 s at 10 Hz, which is one sample, the first packet of two samples leaves two
  samples in the buffer. The second append does trim to the one most recent sample.
\<close>

theorem first_append_is_not_trimmed:
  "RtTrace_init (Some 0.1) = Inr (example_fresh\<lparr>max_length := Some 0.1\<rparr>)
   \<and> fst (append no_signal 0 True False
        (two_packets (example_fresh\<lparr>max_length := Some 0.1\<rparr>)
           (example_packet 0) (example_packet 0.2))) = Inr 0
   \<and> npts (rt (snd (append no_signal 0 True False
        (two_packets (example_fresh\<lparr>max_length := Some 0.1\<rparr>)
           (example_packet 0) (example_packet 0.2))))) = 2
   \<and> round (0.1 * sampling_rate (stats (rt (snd (append no_signal 0 True False
        (two_packets (example_fresh\<lparr>max_length := Some 0.1\<rparr>)
           (example_packet 0) (example_packet 0.2))))))) = 1
   \<and> fst (append_all no_signal [0, 1] True False
        (two_packets (example_fresh\<lparr>max_length := Some 0.1\<rparr>)
           (example_packet 0) (example_packet 0.2))) = Inr ()
   \<and> vals (data (rt (snd (append_all no_signal [0, 1] True False
        (two_packets (example_fresh\<lparr>max_length := Some 0.1\<rparr>)
           (example_packet 0) (example_packet 0.2)))))) = [5]"
proof -
  let ?W = "two_packets (example_fresh\<lparr>max_length := Some 0.1\<rparr>)
           (example_packet 0) (example_packet 0.2)"
  have i: "RtTrace_init (Some 0.1) = Inr (example_fresh\<lparr>max_length := Some 0.1\<rparr>)"
    by (simp add: RtTrace_init_def example_fresh_def)
  have seeded: "\<not> have_appended_data (rt ?W)" "processing (rt ?W) = []"
    by (simp_all add: two_packets_def example_fresh_def)
  have a: "append no_signal 0 True False ?W =
     (Inr 0, \<lparr>rt = \<lparr>data = \<lparr>dtype = Float32, vals = [4, 5]\<rparr>, stats = example_stats,
                   max_length = Some 0.1, have_appended_data = True, processing = []\<rparr>,
              traces = (\<lambda>r. if r = 0 then example_packet 0 else example_packet 0.2),
              heap = []\<rparr>)"
    by (simp add: append_def sanity_checks_def check_times_def Let_def coerce_float32_def
        process_and_merge_def merge_def two_packets_def example_fresh_def example_packet_def
        example_stats_def fun_eq_iff)
  have r: "round (0.1 * (10::real)) = 1" by (simp add: round_def)
  have b: "append no_signal 1 True False
     \<lparr>rt = \<lparr>data = \<lparr>dtype = Float32, vals = [4, 5]\<rparr>, stats = example_stats,
                   max_length = Some 0.1, have_appended_data = True, processing = []\<rparr>,
              traces = (\<lambda>r. if r = 0 then example_packet 0 else example_packet 0.2),
              heap = []\<rparr> =
     (Inr 1, \<lparr>rt = \<lparr>data = \<lparr>dtype = Float32, vals = [5]\<rparr>,
                   stats = example_stats\<lparr>starttime := 0.3\<rparr>,
                   max_length = Some 0.1, have_appended_data = True, processing = []\<rparr>,
              traces = (\<lambda>r. if r = 0 then example_packet 0 else example_packet 0.2),
              heap = []\<rparr>)"
    by (simp add: append_def sanity_checks_def check_times_def Let_def coerce_float32_def
        process_and_merge_def merge_def Trace_add_def py_div_def py_int_def ltrim_def
        endtime_def npts_def stats_delta_def getId_def round_def
        example_packet_def example_stats_def fun_eq_iff)
  have c2: "fst (append no_signal 0 True False ?W) = Inr 0"
    by (simp only: a fst_conv)
  have c3: "npts (rt (snd (append no_signal 0 True False ?W))) = 2"
    by (simp only: a snd_conv) (simp add: npts_def)
  have c4: "round (0.1 * sampling_rate (stats (rt (snd (append no_signal 0 True False ?W))))) = 1"
    by (simp only: a snd_conv) (simp add: example_stats_def round_def)
  have all: "append_all no_signal [0, 1] True False ?W =
     (Inr (), \<lparr>rt = \<lparr>data = \<lparr>dtype = Float32, vals = [5]\<rparr>,
                   stats = example_stats\<lparr>starttime := 0.3\<rparr>,
                   max_length = Some 0.1, have_appended_data = True, processing = []\<rparr>,
              traces = (\<lambda>r. if r = 0 then example_packet 0 else example_packet 0.2),
              heap = []\<rparr>)"
    by (simp only: append_all.simps a b prod.case sum.case)
  have c5: "fst (append_all no_signal [0, 1] True False ?W) = Inr ()"
    by (simp only: all fst_conv)
  have c6: "vals (data (rt (snd (append_all no_signal [0, 1] True False ?W)))) = [5]"
    by (simp only: all snd_conv) simp
  show ?thesis using i c2 c3 c4 c5 c6 by blast
qed

text \<open>
  C9 says that the value returned is the sample array of the processed packet. Line
  322 returns \<^verbatim>\<open>trace\<close>: the reference of the packet object, whose data are that array
  (here the doubled samples, which were also merged into the buffer) and which carries
  its header as well.
\<close>

theorem append_returns_trace_object:
  "fst (append no_signal 0 True False
        (example_world (example_buffer\<lparr>processing := [(doubling_process, [], None)]\<rparr>)
           (example_packet 0.3))) = Inr 0
   \<and> traces (snd (append no_signal 0 True False
        (example_world (example_buffer\<lparr>processing := [(doubling_process, [], None)]\<rparr>)
           (example_packet 0.3)))) 0
       = \<lparr>data = \<lparr>dtype = Float32, vals = [8, 10]\<rparr>,
          stats = example_stats\<lparr>starttime := 0.3\<rparr>\<rparr>
   \<and> vals (data (rt (snd (append no_signal 0 True False
        (example_world (example_buffer\<lparr>processing := [(doubling_process, [], None)]\<rparr>)
           (example_packet 0.3)))))) = [1, 2, 3, 8, 10]"
  by (simp add: append_def sanity_checks_def check_times_def py_div_def Let_def endtime_def
        npts_def stats_delta_def getId_def coerce_float32_def process_and_merge_def merge_def
        Trace_add_def apply_process_def clear_memory_def invoke_process_def set_data_def
        doubling_process_def example_world_def
        example_packet_def example_buffer_def example_stats_def)

subsection \<open>Splitting a series and appending the parts\<close>

lemma ltrim_sample:
  assumes "sampling_rate (stats tr) \<noteq> 0"
  shows "ltrim tr (starttime (stats tr) + real i * stats_delta (stats tr)) =
     tr\<lparr>data := (data tr)\<lparr>vals := drop i (vals (data tr))\<rparr>,
        stats := (stats tr)\<lparr>starttime :=
           starttime (stats tr) + real i * stats_delta (stats tr)\<rparr>\<rparr>"
proof -
  have r: "round ((starttime (stats tr) + real i * stats_delta (stats tr)
              - starttime (stats tr)) * sampling_rate (stats tr)) = int i"
    using assms by (simp add: stats_delta_def)
  show ?thesis
  proof (cases "i = 0")
    case True
    then show ?thesis by (simp add: ltrim_def)
  next
    case False
    then show ?thesis unfolding ltrim_def r by (simp add: Let_def)
  qed
qed

lemma rtrim_sample:
  assumes "sampling_rate (stats tr) \<noteq> 0" and "0 \<le> pl"
  shows "rtrim tr (starttime (stats tr) + stats_delta (stats tr) * real_of_int pl) =
     tr\<lparr>data := (data tr)\<lparr>vals := take (nat pl + 1) (vals (data tr))\<rparr>\<rparr>"
proof -
  let ?n = "npts tr"
  have "(endtime tr - (starttime (stats tr) + stats_delta (stats tr) * real_of_int pl))
          * sampling_rate (stats tr) = real_of_int (int ?n - 1 - pl)"
    using assms by (simp add: endtime_def stats_delta_def field_simps)
  then have r: "round ((endtime tr - (starttime (stats tr)
          + stats_delta (stats tr) * real_of_int pl)) * sampling_rate (stats tr))
        = int ?n - 1 - pl"
    by (simp only: round_of_int)
  show ?thesis
  proof (cases "int ?n - 1 - pl > 0")
    case True
    have "nat (int ?n - (int ?n - 1 - pl)) = nat pl + 1" using assms by simp
    with True show ?thesis unfolding rtrim_def r by (simp add: Let_def)
  next
    case False
    then have "length (vals (data tr)) \<le> nat pl + 1" by (simp add: npts_def)
    with False show ?thesis unfolding rtrim_def r by (simp add: Let_def)
  qed
qed

lemma slice_chunk:
  assumes "sampling_rate (stats tr) \<noteq> 0" and "0 \<le> pl"
    and "tstart = starttime (stats tr) + real i * stats_delta (stats tr)"
    and "tend = tstart + stats_delta (stats tr) * real_of_int pl"
  shows "slice tr tstart tend = chunk tr (nat pl + 1) i"
proof -
  let ?lt = "tr\<lparr>data := (data tr)\<lparr>vals := drop i (vals (data tr))\<rparr>,
        stats := (stats tr)\<lparr>starttime :=
           starttime (stats tr) + real i * stats_delta (stats tr)\<rparr>\<rparr>"
  have sr: "sampling_rate (stats ?lt) \<noteq> 0" using assms by simp
  have d: "stats_delta (stats ?lt) = stats_delta (stats tr)" by (simp add: stats_delta_def)
  have "slice tr tstart tend =
    rtrim ?lt (starttime (stats ?lt) + stats_delta (stats ?lt) * real_of_int pl)"
    unfolding slice_def assms(3,4) ltrim_sample [OF assms(1)] d by simp
  also have "\<dots> = ?lt\<lparr>data := (data ?lt)\<lparr>vals := take (nat pl + 1) (vals (data ?lt))\<rparr>\<rparr>"
    by (rule rtrim_sample [OF sr assms(2)])
  also have "\<dots> = chunk tr (nat pl + 1) i" by (simp add: chunk_def)
  finally show ?thesis .
qed

lemma split_loop_chunks:
  assumes "sampling_rate (stats tr) \<noteq> 0" and "0 \<le> pl"
  shows "tstart = starttime (stats tr) + real m * stats_delta (stats tr) \<Longrightarrow>
         tend = tstart + stats_delta (stats tr) * real_of_int pl \<Longrightarrow>
         split_loop tr pl cnt tstart tend =
           map (\<lambda>k. chunk tr (nat pl + 1) (m + k * (nat pl + 1))) [0..<cnt]"
proof (induction cnt arbitrary: m tstart tend)
  case 0
  then show ?case by simp
next
  case (Suc cnt)
  let ?d = "stats_delta (stats tr)"
  let ?L = "nat pl + 1"
  have L: "real (nat pl) = real_of_int pl" using assms(2) by simp
  have s': "tend + ?d = starttime (stats tr) + real (m + ?L) * ?d"
    unfolding Suc.prems by (simp add: algebra_simps L)
  have ih: "split_loop tr pl cnt (tend + ?d) (tend + ?d + ?d * real_of_int pl) =
           map (\<lambda>k. chunk tr ?L (m + ?L + k * ?L)) [0..<cnt]"
    by (rule Suc.IH [OF s' refl])
  have hd: "slice tr tstart tend = chunk tr ?L m"
    by (rule slice_chunk [OF assms Suc.prems])
  have "map (\<lambda>k. chunk tr ?L (m + k * ?L)) [0..<Suc cnt] =
        chunk tr ?L m # map (\<lambda>k. chunk tr ?L (m + ?L + k * ?L)) [0..<cnt]"
    by (simp only: map_upt_Suc) (simp add: ac_simps)
  then show ?case
    by (simp only: split_loop.simps Let_def ih hd)
qed

lemma append_first:
  assumes "\<not> have_appended_data (rt w)" and "processing (rt w) = []"
  shows "append signal p chk verbose w =
           (Inr p, w\<lparr>rt := (rt w)\<lparr>data := data (coerce_float32 (traces w p)),
                                  stats := stats (traces w p),
                                  have_appended_data := True\<rparr>,
                     traces := (traces w)(p := coerce_float32 (traces w p))\<rparr>)"
  using assms
  by (simp add: append_def sanity_checks_def check_times_unseeded process_and_merge_def
      merge_def Let_def)

lemma append_contiguous:
  assumes seeded: "have_appended_data (rt w)"
    and procs: "processing (rt w) = []"
    and nomax: "max_length (rt w) = None"
    and rate: "sampling_rate (stats (rt w)) \<noteq> 0"
    and hdr: "stats (traces w p) =
        (stats (rt w))\<lparr>starttime := endtime (rt w) + stats_delta (stats (rt w))\<rparr>"
    and dt: "dtype (data (coerce_float32 (traces w p))) = dtype (data (rt w))"
  shows "append signal p chk verbose w =
           (Inr p, w\<lparr>rt := (rt w)\<lparr>data := (data (rt w))
                       \<lparr>vals := vals (data (rt w)) @ vals (data (traces w p))\<rparr>\<rparr>,
                     traces := (traces w)(p := coerce_float32 (traces w p))\<rparr>)"
proof -
  let ?tr = "coerce_float32 (traces w p)"
  have sc: "sanity_checks (rt w) ?tr = None"
    using dt by (simp add: sanity_checks_def getId_def hdr)
  have d: "stats_delta (stats (rt w)) = 1 / sampling_rate (stats (rt w))"
    using rate by (simp add: stats_delta_def)
  have ct: "check_times (rt w) ?tr chk verbose = Inr (False, rt w)"
    using rate by (simp add: check_times_seeded [OF seeded rate] Let_def hdr d)
  have ta: "Trace_add (rt w) ?tr =
      Inr \<lparr>data = \<lparr>dtype = dtype (data (rt w)),
                    vals = vals (data (rt w)) @ vals (data (traces w p))\<rparr>,
           stats = stats (rt w)\<rparr>"
    using dt by (simp add: Trace_add_def getId_def hdr)
  have "(rt w)\<lparr>processing := processing (rt w)\<rparr> = rt w" by simp
  then have p0: "(rt w)\<lparr>processing := []\<rparr> = rt w" by (simp only: procs)
  show ?thesis
    using seeded
    by (simp add: append_cases sc ct process_and_merge_def procs p0 merge_def ta nomax Let_def)
qed

lemma coerce_float32_idem [simp]: "coerce_float32 (coerce_float32 tr) = coerce_float32 tr"
  by (simp add: coerce_float32_def)

lemma npts_coerce_float32 [simp]: "npts (coerce_float32 tr) = npts tr"
  by (simp add: npts_def)

lemma append_all_contiguous:
  "have_appended_data (rt w) \<Longrightarrow> processing (rt w) = [] \<Longrightarrow> max_length (rt w) = None \<Longrightarrow>
   sampling_rate (stats (rt w)) \<noteq> 0 \<Longrightarrow>
   contiguous_packets (stats (rt w)) (dtype (data (rt w)))
     (endtime (rt w) + stats_delta (stats (rt w)))
     (map (\<lambda>p. coerce_float32 (traces w p)) ps) \<Longrightarrow>
   \<exists>w'. append_all signal ps chk verbose w = (Inr (), w')
     \<and> vals (data (rt w')) =
         vals (data (rt w)) @ concat (map (\<lambda>p. vals (data (traces w p))) ps)"
proof (induction ps arbitrary: w)
  case Nil
  then show ?case by simp
next
  case (Cons p ps)
  let ?w1 = "w\<lparr>rt := (rt w)\<lparr>data := (data (rt w))
                       \<lparr>vals := vals (data (rt w)) @ vals (data (traces w p))\<rparr>\<rparr>,
                     traces := (traces w)(p := coerce_float32 (traces w p))\<rparr>"
  from Cons.prems(5) have
    hdr: "stats (traces w p) =
        (stats (rt w))\<lparr>starttime := endtime (rt w) + stats_delta (stats (rt w))\<rparr>"
    and dt: "dtype (data (coerce_float32 (traces w p))) = dtype (data (rt w))"
    and rest: "contiguous_packets (stats (rt w)) (dtype (data (rt w)))
       (endtime (rt w) + stats_delta (stats (rt w))
          + real (npts (traces w p)) * stats_delta (stats (rt w)))
       (map (\<lambda>q. coerce_float32 (traces w q)) ps)"
    by simp_all
  have ap: "append signal p chk verbose w = (Inr p, ?w1)"
    by (rule append_contiguous [OF Cons.prems(1-4) hdr dt])
  have m: "map (\<lambda>q. coerce_float32 (traces ?w1 q)) ps = map (\<lambda>q. coerce_float32 (traces w q)) ps"
    by simp
  have e: "endtime (rt ?w1) + stats_delta (stats (rt ?w1)) =
      endtime (rt w) + stats_delta (stats (rt w))
          + real (npts (traces w p)) * stats_delta (stats (rt w))"
    by (simp add: endtime_def npts_def algebra_simps)
  have "contiguous_packets (stats (rt ?w1)) (dtype (data (rt ?w1)))
     (endtime (rt ?w1) + stats_delta (stats (rt ?w1)))
     (map (\<lambda>q. coerce_float32 (traces ?w1 q)) ps)"
    unfolding m e using rest by simp
  from Cons.IH [OF _ _ _ _ this] Cons.prems(1-4)
  obtain w' where w': "append_all signal ps chk verbose ?w1 = (Inr (), w')"
    and v: "vals (data (rt w')) =
         vals (data (rt ?w1)) @ concat (map (\<lambda>q. vals (data (traces ?w1 q))) ps)"
    by auto
  have vm: "map (\<lambda>q. vals (data (traces ?w1 q))) ps = map (\<lambda>q. vals (data (traces w q))) ps"
    by simp
  have v2: "vals (data (rt w')) =
         vals (data (rt ?w1)) @ concat (map (\<lambda>q. vals (data (traces w q))) ps)"
    using v by (simp only: vm)
  show ?case
    using w' v2 by (simp add: ap)
qed

lemma length_split_loop: "length (split_loop tr pl cnt tstart tend) = cnt"
  by (induction cnt arbitrary: tstart tend) (simp_all add: Let_def)

lemma ltrim_length_le: "length (vals (data (ltrim tr t))) \<le> length (vals (data tr))"
  by (simp add: ltrim_def Let_def)

lemma rtrim_length_le: "length (vals (data (rtrim tr t))) \<le> length (vals (data tr))"
  by (simp add: rtrim_def Let_def)

lemma slice_length_le: "length (vals (data (slice tr tstart tend))) \<le> npts tr"
  unfolding slice_def npts_def
  by (rule order_trans [OF rtrim_length_le ltrim_length_le])

lemma concat_chunks:
  "concat (map (\<lambda>k. take len (drop (k * len) xs)) [0..<m]) = take (m * len) xs"
proof (induction m)
  case 0
  then show ?case by simp
next
  case (Suc m)
  have "take (m * len + len) xs = take (m * len) xs @ take len (drop (m * len) xs)"
    by (rule take_add)
  with Suc show ?case by (simp add: add.commute)
qed

lemma stats_chunk:
  "stats (chunk tr len i) =
     (stats tr)\<lparr>starttime := starttime (stats tr) + real i * stats_delta (stats tr)\<rparr>"
  by (simp add: chunk_def)

lemma vals_chunk: "vals (data (chunk tr len i)) = take len (drop i (vals (data tr)))"
  by (simp add: chunk_def)

lemma dtype_coerce_chunk:
  "dtype (data (coerce_float32 (chunk tr len i))) = dtype (data (coerce_float32 tr))"
  by (simp add: chunk_def coerce_float32_def)

lemma chunks_contiguous:
  assumes full: "\<forall>j. j < cnt \<longrightarrow> j * len < npts tr"
  shows "d = cnt - k \<Longrightarrow> k \<le> cnt \<Longrightarrow>
     contiguous_packets (stats (chunk tr len 0)) (dtype (data (coerce_float32 tr)))
       (starttime (stats tr) + real (k * len) * stats_delta (stats tr))
       (map (\<lambda>j. coerce_float32 (chunk tr len (j * len))) [k..<cnt])"
proof (induction d arbitrary: k)
  case 0
  then show ?case by simp
next
  case (Suc d)
  then have k: "k < cnt" by simp
  let ?H = "stats (chunk tr len 0)"
  let ?dl = "stats_delta (stats tr)"
  have up: "[k..<cnt] = k # [Suc k..<cnt]" using k by (simp add: upt_conv_Cons)
  have dH: "stats_delta ?H = ?dl" by (simp add: stats_chunk stats_delta_def)
  have st: "stats (coerce_float32 (chunk tr len (k * len))) =
      ?H\<lparr>starttime := starttime (stats tr) + real (k * len) * ?dl\<rparr>"
    by (simp add: stats_chunk)
  have ih: "contiguous_packets ?H (dtype (data (coerce_float32 tr)))
       (starttime (stats tr) + real (Suc k * len) * ?dl)
       (map (\<lambda>j. coerce_float32 (chunk tr len (j * len))) [Suc k..<cnt])"
    using Suc.prems k by (intro Suc.IH) simp_all
  have nx: "contiguous_packets ?H (dtype (data (coerce_float32 tr)))
       (starttime (stats tr) + real (k * len) * ?dl
          + real (npts (coerce_float32 (chunk tr len (k * len)))) * stats_delta ?H)
       (map (\<lambda>j. coerce_float32 (chunk tr len (j * len))) [Suc k..<cnt])"
  proof (cases "Suc k < cnt")
    case False
    then show ?thesis by simp
  next
    case True
    with full have "Suc k * len < npts tr" by blast
    then have "npts (coerce_float32 (chunk tr len (k * len))) = len"
      by (simp add: npts_def vals_chunk)
    then have eq: "starttime (stats tr) + real (k * len) * ?dl
          + real (npts (coerce_float32 (chunk tr len (k * len)))) * stats_delta ?H
        = starttime (stats tr) + real (Suc k * len) * ?dl"
      by (simp add: dH algebra_simps)
    show ?thesis by (simp only: eq ih)
  qed
  show ?case
    unfolding up list.map contiguous_packets.simps
    using st nx by (simp add: dtype_coerce_chunk)
qed

lemma packet_length_bounds:
  fixes n :: nat and N :: int
  assumes "0 < N" and "0 < n"
  defines "pl \<equiv> (if int n mod N \<noteq> 0 then int n div N else int n div N - 1)"
  shows "0 \<le> pl" and "n \<le> nat N * (nat pl + 1)"
proof -
  have dm: "int n = N * (int n div N) + int n mod N" by simp
  have m0: "0 \<le> int n mod N" and m1: "int n mod N < N" using assms(1) by simp_all
  have d0: "0 \<le> int n div N" using assms(1) by (simp add: pos_imp_zdiv_nonneg_iff)
  show pl0: "0 \<le> pl"
  proof (cases "int n mod N = 0")
    case True
    with dm have "int n = N * (int n div N)" by simp
    with assms(1,2) d0 have "int n div N \<noteq> 0" by auto
    with d0 True show ?thesis by (simp add: pl_def)
  next
    case False
    with d0 show ?thesis by (simp add: pl_def)
  qed
  have "int n \<le> N * (pl + 1)"
  proof (cases "int n mod N = 0")
    case True
    with dm show ?thesis by (simp add: pl_def)
  next
    case False
    have "N * (int n div N + 1) = N * (int n div N) + N" by (simp add: algebra_simps)
    moreover have "int n \<le> N * (int n div N) + N" using dm m1 by linarith
    ultimately show ?thesis using False by (simp add: pl_def)
  qed
  also have "N * (pl + 1) = int (nat N * (nat pl + 1))"
    using assms(1) pl0 by (simp add: algebra_simps)
  finally show "n \<le> nat N * (nat pl + 1)" by (simp only: of_nat_le_iff)
qed

text \<open>
  C7. Let the packet splitter return \<open>N\<close> parts for a series with a positive sample
  rate, all of them non-empty. Appending the parts in order to a new \<^verbatim>\<open>RtTrace\<close> (made
  without a maximum length, nothing registered) with \<^verbatim>\<open>gap_overlap_check\<close> set raises no
  exception, and afterwards the buffer holds the samples of the series: the same
  values and the same count.
\<close>

theorem split_and_append_roundtrip:
  assumes split: "splitTrace series N = Inr parts"
    and count: "int (length parts) = N"
    and nonempty: "\<forall>part \<in> set parts. vals (data part) \<noteq> []"
    and rate: "0 < sampling_rate (stats series)"
    and fresh: "RtTrace_init None = Inr (rt w)"
    and packets: "map (traces w) ps = parts"
  shows "\<exists>w'. append_all signal ps True verbose w = (Inr (), w')
           \<and> vals (data (rt w')) = vals (data series)
           \<and> npts (rt w') = npts series"
proof -
  let ?n = "npts series"
  let ?xs = "vals (data series)"
  let ?st = "starttime (stats series)"
  let ?dl = "stats_delta (stats series)"
  define pl where "pl = (if int ?n mod N \<noteq> 0 then int ?n div N else int ?n div N - 1)"
  define len where "len = nat pl + 1"
  define cnt where "cnt = nat N"
  have sr: "sampling_rate (stats series) \<noteq> 0" using rate by simp
  have N0: "N \<noteq> 0" using split by (auto simp: splitTrace_def split: if_splits)
  have parts: "parts = split_loop series pl cnt ?st (?st + ?dl * real_of_int pl)"
    using split N0 by (simp add: splitTrace_def Let_def pl_def cnt_def)
  have Npos: "0 < N" using count N0 by linarith
  have cnt: "0 < cnt" "length parts = cnt" using Npos count by (simp_all add: cnt_def)
  have npos: "0 < ?n"
  proof -
    from cnt obtain cnt' where c: "cnt = Suc cnt'" by (cases cnt) simp_all
    have "slice series ?st (?st + ?dl * real_of_int pl) \<in> set parts"
      unfolding parts c by simp
    with nonempty have "vals (data (slice series ?st (?st + ?dl * real_of_int pl))) \<noteq> []"
      by blast
    with slice_length_le [of series ?st "?st + ?dl * real_of_int pl"] show ?thesis
      by (cases "?n") simp_all
  qed
  have pl0: "0 \<le> pl" and cover: "?n \<le> cnt * len"
    using packet_length_bounds [OF Npos npos] by (simp_all add: pl_def len_def cnt_def)
  have chunks: "parts = map (\<lambda>k. chunk series len (k * len)) [0..<cnt]"
    unfolding parts len_def
    using split_loop_chunks [OF sr pl0, of ?st 0 "?st + ?dl * real_of_int pl" cnt]
    by simp
  have full: "\<forall>j. j < cnt \<longrightarrow> j * len < ?n"
  proof (intro allI impI)
    fix j assume j: "j < cnt"
    then have "chunk series len (j * len) \<in> set parts" by (simp add: chunks)
    with nonempty have "take len (drop (j * len) ?xs) \<noteq> []"
      by (auto simp: vals_chunk)
    then show "j * len < ?n" by (cases "j * len < ?n") (simp_all add: npts_def)
  qed
  from cnt packets obtain p0 ps' where ps: "ps = p0 # ps'"
    by (cases ps) auto
  have up: "[0..<cnt] = 0 # [1..<cnt]" using cnt(1) by (simp add: upt_conv_Cons)
  have p0: "traces w p0 = chunk series len 0"
    and ps': "map (traces w) ps' = map (\<lambda>k. chunk series len (k * len)) [1..<cnt]"
    using packets unfolding ps chunks up by simp_all
  have rtw: "rt w = example_fresh"
    using fresh by (auto simp: RtTrace_init_def example_fresh_def)
  have fr: "\<not> have_appended_data (rt w)" "processing (rt w) = []" "max_length (rt w) = None"
    by (simp_all add: rtw example_fresh_def)
  let ?w1 = "w\<lparr>rt := (rt w)\<lparr>data := data (coerce_float32 (traces w p0)),
                                  stats := stats (traces w p0),
                                  have_appended_data := True\<rparr>,
                     traces := (traces w)(p0 := coerce_float32 (traces w p0))\<rparr>"
  have a1: "append signal p0 True verbose w = (Inr p0, ?w1)"
    by (rule append_first [OF fr(1,2)])
  have m1: "map (\<lambda>p. coerce_float32 (traces ?w1 p)) ps' =
      map (\<lambda>j. coerce_float32 (chunk series len (j * len))) [1..<cnt]"
  proof -
    have "map (\<lambda>p. coerce_float32 (traces ?w1 p)) ps' = map coerce_float32 (map (traces w) ps')"
      by simp
    then show ?thesis unfolding ps' by (simp add: comp_def)
  qed
  have c1: "contiguous_packets (stats (rt ?w1)) (dtype (data (rt ?w1)))
     (endtime (rt ?w1) + stats_delta (stats (rt ?w1)))
     (map (\<lambda>p. coerce_float32 (traces ?w1 p)) ps')"
  proof (cases "1 < cnt")
    case False
    then show ?thesis unfolding m1 by simp
  next
    case True
    with full have "1 * len < ?n" by blast
    then have l0: "length (take len (drop 0 ?xs)) = len" by (simp add: npts_def)
    have s: "stats (rt ?w1) = stats (chunk series len 0)" by (simp add: p0)
    have e: "endtime (rt ?w1) + stats_delta (stats (chunk series len 0))
        = ?st + real (1 * len) * ?dl"
      using l0 by (simp add: endtime_def npts_def p0 stats_chunk vals_chunk stats_delta_def
          algebra_simps)
    have d: "dtype (data (rt ?w1)) = dtype (data (coerce_float32 series))"
      by (simp add: p0 dtype_coerce_chunk)
    show ?thesis
      unfolding m1 s d e
      by (rule chunks_contiguous [OF full refl]) (use True in simp)
  qed
  have pre: "have_appended_data (rt ?w1)" "processing (rt ?w1) = []"
    "max_length (rt ?w1) = None" "sampling_rate (stats (rt ?w1)) \<noteq> 0"
    using fr sr by (simp_all add: p0 stats_chunk)
  from append_all_contiguous [OF pre c1, of signal True verbose]
  obtain w' where w': "append_all signal ps' True verbose ?w1 = (Inr (), w')"
    and v: "vals (data (rt w')) =
         vals (data (rt ?w1)) @ concat (map (\<lambda>p. vals (data (traces ?w1 p))) ps')"
    by blast
  have vm: "map (\<lambda>p. vals (data (traces ?w1 p))) ps' = map (\<lambda>p. vals (data p)) (map (traces w) ps')"
    by simp
  have "vals (data (rt w')) =
      concat (map (\<lambda>k. take len (drop (k * len) ?xs)) [0..<cnt])"
    using v unfolding vm ps' up by (simp add: p0 vals_chunk comp_def)
  also have "\<dots> = take (cnt * len) ?xs" by (rule concat_chunks)
  also have "\<dots> = ?xs" using cover by (simp add: npts_def)
  finally have vals: "vals (data (rt w')) = ?xs" .
  have "append_all signal ps True verbose w = (Inr (), w')"
    unfolding ps by (simp add: a1 w')
  with vals show ?thesis by (auto simp: npts_def)
qed

lemma example_split:
  "splitTrace example_series 2 =
     Inr [\<lparr>data = \<lparr>dtype = Float32, vals = [1, 2, 3]\<rparr>, stats = example_stats\<rparr>,
          \<lparr>data = \<lparr>dtype = Float32, vals = [4, 5]\<rparr>,
             stats = example_stats\<lparr>starttime := 0.3\<rparr>\<rparr>]"
  by (simp add: splitTrace_def Let_def numeral_2_eq_2 slice_def ltrim_def rtrim_def
      endtime_def npts_def stats_delta_def round_def example_series_def example_stats_def)

theorem split_and_append_roundtrip_witness:
  "splitTrace example_series 2 =
     Inr [\<lparr>data = \<lparr>dtype = Float32, vals = [1, 2, 3]\<rparr>, stats = example_stats\<rparr>,
          example_packet 0.3]
   \<and> RtTrace_init None = Inr example_fresh
   \<and> fst (append_all no_signal [0, 1] True False
        (two_packets example_fresh
           \<lparr>data = \<lparr>dtype = Float32, vals = [1, 2, 3]\<rparr>, stats = example_stats\<rparr>
           (example_packet 0.3))) = Inr ()
   \<and> vals (data (rt (snd (append_all no_signal [0, 1] True False
        (two_packets example_fresh
           \<lparr>data = \<lparr>dtype = Float32, vals = [1, 2, 3]\<rparr>, stats = example_stats\<rparr>
           (example_packet 0.3)))))) = [1, 2, 3, 4, 5]"
proof -
  let ?P0 = "\<lparr>data = \<lparr>dtype = Float32, vals = [1, 2, 3]\<rparr>, stats = example_stats\<rparr>"
  let ?W = "two_packets example_fresh ?P0 (example_packet 0.3)"
  have sp: "splitTrace example_series 2 = Inr [?P0, example_packet 0.3]"
    by (simp add: example_split example_packet_def)
  have h2: "int (length [?P0, example_packet 0.3]) = 2" by simp
  have h3: "\<forall>part \<in> set [?P0, example_packet 0.3]. vals (data part) \<noteq> []"
    by (simp add: example_packet_def)
  have h4: "0 < sampling_rate (stats example_series)"
    by (simp add: example_series_def example_stats_def)
  have h5: "RtTrace_init None = Inr (rt ?W)"
    by (simp add: RtTrace_init_def two_packets_def example_fresh_def)
  have h6: "map (traces ?W) [0, 1] = [?P0, example_packet 0.3]"
    by (simp add: two_packets_def)
  from split_and_append_roundtrip [OF sp h2 h3 h4 h5 h6, of no_signal False]
  obtain w' where "append_all no_signal [0, 1] True False ?W = (Inr (), w')"
    and "vals (data (rt w')) = vals (data example_series)"
    by blast
  then have "fst (append_all no_signal [0, 1] True False ?W) = Inr ()"
    and "vals (data (rt (snd (append_all no_signal [0, 1] True False ?W)))) = [1, 2, 3, 4, 5]"
    by (simp_all add: example_series_def)
  moreover have "RtTrace_init None = Inr example_fresh"
    by (simp add: RtTrace_init_def example_fresh_def)
  ultimately show ?thesis using sp by blast
qed

subsection \<open>The loop over the registered processing\<close>

lemma run_processing_append:
  "run_processing signal g p (procs1 @ procs2) w =
     (case run_processing signal g p procs1 w of
        (Inl e, procs1', w1) \<Rightarrow> (Inl e, procs1' @ procs2, w1)
      | (Inr u, procs1', w1) \<Rightarrow>
          (case run_processing signal g p procs2 w1 of
             (r, procs2', w2) \<Rightarrow> (r, procs1' @ procs2', w2)))"
proof (induction procs1 arbitrary: w)
  case Nil
  then show ?case by (simp split: prod.splits)
next
  case (Cons proc procs1)
  show ?case
    by (simp add: Cons.IH split: prod.splits sum.splits)
qed

lemma run_processing_length:
  "run_processing signal g p procs w = (r, procs', w') \<Longrightarrow> length procs' = length procs"
proof (induction procs arbitrary: w r procs' w')
  case Nil then show ?case by simp
next
  case (Cons proc procs)
  then show ?case by (auto split: prod.splits sum.splits)
qed

lemma apply_process_invoke:
  "apply_process signal g p (process_name, opts, rtmemory_list) w =
     (case invoke_process signal p
             (process_name, opts, fst (clear_memory g rtmemory_list (heap w)))
             (w\<lparr>heap := snd (clear_memory g rtmemory_list (heap w))\<rparr>) of
        (r, w') \<Rightarrow> (r, (process_name, opts, fst (clear_memory g rtmemory_list (heap w))), w'))"
  by (simp add: apply_process_def split: prod.splits)

lemma invokes_head:
  "invokes signal g p ((process_name, opts, rtmemory_list) # procs) w
     (process_name, opts, fst (clear_memory g rtmemory_list (heap w)))
     (w\<lparr>heap := snd (clear_memory g rtmemory_list (heap w))\<rparr>)"
  by (rule invokes_first) simp

lemma run_processing_last_call:
  "procs \<noteq> [] \<Longrightarrow> run_processing signal g p procs w = (r, procs', w') \<Longrightarrow>
   \<exists>proc0 w0. invokes signal g p procs w proc0 w0 \<and> proc0 \<in> set procs'
     \<and> invoke_process signal p proc0 w0 = (r, w')"
proof (induction procs arbitrary: w r procs' w')
  case Nil then show ?case by simp
next
  case (Cons proc procs)
  obtain pn opts ml where proc: "proc = (pn, opts, ml)" by (cases proc)
  let ?e = "(pn, opts, fst (clear_memory g ml (heap w)))"
  let ?w0 = "w\<lparr>heap := snd (clear_memory g ml (heap w))\<rparr>"
  obtain r1 w1 where inv: "invoke_process signal p ?e ?w0 = (r1, w1)"
    by (cases "invoke_process signal p ?e ?w0")
  have ap: "apply_process signal g p proc w = (r1, ?e, w1)"
    by (simp add: proc apply_process_invoke inv)
  have hd: "invokes signal g p (proc # procs) w ?e ?w0"
    unfolding proc by (rule invokes_head)
  show ?case
  proof (cases r1)
    case (Inl e)
    with Cons.prems ap have "r = Inl e" "procs' = ?e # procs" "w' = w1" by simp_all
    with hd inv Inl show ?thesis by auto
  next
    case (Inr u)
    obtain r2 procs2 w2 where rec: "run_processing signal g p procs w1 = (r2, procs2, w2)"
      by (metis prod_cases3)
    with Cons.prems ap Inr have res: "r = r2" "procs' = ?e # procs2" "w' = w2" by simp_all
    show ?thesis
    proof (cases "procs = []")
      case True
      with rec have "r2 = Inr ()" "w2 = w1" by simp_all
      with hd inv Inr res show ?thesis by auto
    next
      case False
      from Cons.IH [OF False rec] obtain proc0 w0 where
        i0: "invokes signal g p procs w1 proc0 w0" and m0: "proc0 \<in> set procs2"
        and c0: "invoke_process signal p proc0 w0 = (r2, w2)" by blast
      have ap1: "apply_process signal g p proc w = (Inr u, ?e, w1)" using ap Inr by simp
      have "invokes signal g p (proc # procs) w proc0 w0"
        by (rule invokes_later [OF ap1 i0])
      moreover have "proc0 \<in> set procs'" using m0 res by simp
      moreover have "invoke_process signal p proc0 w0 = (r, w')" using c0 res by simp
      ultimately show ?thesis by blast
    qed
  qed
qed

lemma run_processing_all_invoked:
  "run_processing signal g p procs w = (Inr u, procs', w') \<Longrightarrow>
   \<forall>i<length procs. \<exists>w0. invokes signal g p procs w (procs' ! i) w0"
proof (induction procs arbitrary: w procs' w')
  case Nil then show ?case by simp
next
  case (Cons proc procs)
  obtain pn opts ml where proc: "proc = (pn, opts, ml)" by (cases proc)
  let ?e = "(pn, opts, fst (clear_memory g ml (heap w)))"
  let ?w0 = "w\<lparr>heap := snd (clear_memory g ml (heap w))\<rparr>"
  obtain r1 w1 where inv: "invoke_process signal p ?e ?w0 = (r1, w1)"
    by (cases "invoke_process signal p ?e ?w0")
  have ap: "apply_process signal g p proc w = (r1, ?e, w1)"
    by (simp add: proc apply_process_invoke inv)
  have hd: "invokes signal g p (proc # procs) w ?e ?w0"
    unfolding proc by (rule invokes_head)
  from Cons.prems ap obtain u1 where r1: "r1 = Inr u1" by (cases r1) auto
  obtain r2 procs2 w2 where rec: "run_processing signal g p procs w1 = (r2, procs2, w2)"
    by (metis prod_cases3)
  with Cons.prems ap r1 have res: "r2 = Inr u" "procs' = ?e # procs2" "w' = w2" by simp_all
  have ih: "\<forall>i<length procs. \<exists>w0. invokes signal g p procs w1 (procs2 ! i) w0"
    using Cons.IH rec res by simp
  have ap1: "apply_process signal g p proc w = (Inr u1, ?e, w1)" using ap r1 by simp
  show ?case
  proof (intro allI impI)
    fix i assume "i < length (proc # procs)"
    show "\<exists>w0. invokes signal g p (proc # procs) w (procs' ! i) w0"
    proof (cases i)
      case 0
      with hd res show ?thesis by auto
    next
      case (Suc j)
      with \<open>i < length (proc # procs)\<close> ih obtain w0 where
        "invokes signal g p procs w1 (procs2 ! j) w0" by auto
      from invokes_later [OF ap1 this] Suc res show ?thesis by auto
    qed
  qed
qed

lemma invokes_failure:
  "invokes signal g p procs w proc0 w0 \<Longrightarrow> invoke_process signal p proc0 w0 = (Inl e, w1) \<Longrightarrow>
   \<exists>procs'. run_processing signal g p procs w = (Inl e, procs', w1)"
proof (induction rule: invokes.induct)
  case (invokes_first rtmemory_list w rtmemory_list' h pn os procs)
  then show ?case by (simp add: apply_process_def)
next
  case (invokes_later proc w u proc' w' procs proc0 w0)
  then obtain procs' where "run_processing signal g p procs w' = (Inl e, procs', w1)" by blast
  with invokes_later(1) show ?case by simp
qed

lemma merge_processing:
  "merge self trace = (r, self') \<Longrightarrow> processing self' = processing self"
  by (auto simp: merge_def Let_def ltrim_def split: if_splits sum.splits option.splits)

lemma process_and_merge_success:
  assumes "process_and_merge signal p g w = (Inr r, w')"
  shows "\<exists>procs w2 u self''.
     run_processing signal g p (processing (rt w)) w = (Inr (), procs, w2)
     \<and> merge ((rt w)\<lparr>processing := procs\<rparr>) (traces w2 p) = (Inr u, self'')
     \<and> w' = w2\<lparr>rt := self''\<lparr>have_appended_data := True\<rparr>\<rparr> \<and> r = p"
proof -
  obtain res procs w2 where rp: "run_processing signal g p (processing (rt w)) w = (res, procs, w2)"
    by (metis prod_cases3)
  have rt2: "rt w2 = rt w" using run_processing_rt [OF rp] .
  show ?thesis
    using assms rp rt2
    by (auto simp: process_and_merge_def Let_def split: sum.splits prod.splits)
qed

subsection \<open>The start time after an append\<close>

lemma merge_starttime:
  assumes seeded: "have_appended_data self" and ok: "merge self trace = (Inr u, self')"
  shows "starttime (stats self') = starttime (stats self) +
     (case max_length self of
        None \<Rightarrow> 0
      | Some ml \<Rightarrow>
          let max_samples = py_int (ml * sampling_rate (stats self) + 0.5);
              n = int (npts self) + int (npts trace)
          in if n > max_samples
             then real_of_int (n - max_samples) / sampling_rate (stats self) else 0)"
proof -
  let ?sr = "sampling_rate (stats self)"
  from ok seeded obtain sum_trace where ta: "Trace_add self trace = Inr sum_trace"
    by (auto simp: merge_def split: sum.splits)
  then have sd: "data sum_trace =
      \<lparr>dtype = dtype (data self), vals = vals (data self) @ vals (data trace)\<rparr>"
    by (auto simp: Trace_add_def split: if_splits)
  let ?self1 = "self\<lparr>data := data sum_trace\<rparr>"
  have n1: "int (npts ?self1) = int (npts self) + int (npts trace)"
    by (simp add: npts_def sd)
  show ?thesis
  proof (cases "max_length self")
    case None
    with ok seeded show ?thesis by (auto simp: merge_def ta)
  next
    case (Some ml)
    let ?ms = "py_int (ml * ?sr + 0.5)"
    let ?n = "int (npts self) + int (npts trace)"
    show ?thesis
    proof (cases "?n > ?ms")
      case False
      then have "self' = ?self1"
        using ok seeded Some n1 by (simp add: merge_def ta Let_def)
      with False Some show ?thesis by (simp add: Let_def)
    next
      case True
      have rate: "?sr \<noteq> 0"
        using ok seeded Some n1 True
        by (auto simp: merge_def ta Let_def py_div_def split: if_splits)
      have s': "self' = ltrim ?self1 (starttime (stats ?self1) + real_of_int (?n - ?ms) / ?sr)"
        using ok seeded Some n1 True rate by (simp add: merge_def ta Let_def py_div_def)
      have "(starttime (stats ?self1) + real_of_int (?n - ?ms) / ?sr
                - starttime (stats ?self1)) * sampling_rate (stats ?self1)
            = real_of_int (?n - ?ms)"
        using rate by simp
      then have r: "round ((starttime (stats ?self1) + real_of_int (?n - ?ms) / ?sr
                - starttime (stats ?self1)) * sampling_rate (stats ?self1)) = ?n - ?ms"
        by (simp only: round_of_int)
      have pos: "0 < ?n - ?ms" using True by simp
      have "starttime (stats self') =
          starttime (stats self) + real_of_int (?n - ?ms) * stats_delta (stats self)"
        unfolding s' ltrim_def r using pos by (simp add: Let_def)
      then have "starttime (stats self') = starttime (stats self) + real_of_int (?n - ?ms) / ?sr"
        using rate by (simp add: stats_delta_def)
      with True Some show ?thesis by (simp only: Let_def option.case if_True)
    qed
  qed
qed

lemma process_and_merge_starttime:
  assumes seeded: "have_appended_data (rt w)"
    and ok: "process_and_merge signal p g w = (Inr r, w')"
  shows "starttime (stats (rt w')) = starttime (stats (rt w)) +
     (case max_length (rt w) of
        None \<Rightarrow> 0
      | Some ml \<Rightarrow>
          let max_samples = py_int (ml * sampling_rate (stats (rt w)) + 0.5);
              n = int (npts (rt w)) + int (npts (traces w' p))
          in if n > max_samples
             then real_of_int (n - max_samples) / sampling_rate (stats (rt w)) else 0)"
proof -
  from process_and_merge_success [OF ok] obtain procs w2 u self'' where
    m: "merge ((rt w)\<lparr>processing := procs\<rparr>) (traces w2 p) = (Inr u, self'')"
    and w': "w' = w2\<lparr>rt := self''\<lparr>have_appended_data := True\<rparr>\<rparr>"
    by blast
  have "have_appended_data ((rt w)\<lparr>processing := procs\<rparr>)" using seeded by simp
  from merge_starttime [OF this m] show ?thesis
    by (simp add: w' npts_def Let_def split: option.splits)
qed

lemma process_and_merge_unseeded_stats:
  assumes "\<not> have_appended_data (rt w)"
    and ok: "process_and_merge signal p g w = (Inr r, w')"
  shows "stats (rt w') = stats (traces w p)"
proof -
  from process_and_merge_success [OF ok] obtain procs w2 u self'' where
    rp: "run_processing signal g p (processing (rt w)) w = (Inr (), procs, w2)"
    and m: "merge ((rt w)\<lparr>processing := procs\<rparr>) (traces w2 p) = (Inr u, self'')"
    and w': "w' = w2\<lparr>rt := self''\<lparr>have_appended_data := True\<rparr>\<rparr>"
    by blast
  have "stats self'' = stats (traces w2 p)"
    using m assms(1) by (auto simp: merge_def)
  with run_processing_traces [OF rp] show ?thesis by (simp add: w')
qed

text \<open>
  C4. When the check of the times succeeds, the flag \<^verbatim>\<open>gap_or_overlap\<close> is set exactly
  when the buffer has data and \<open>delta\<close> is outside the tolerance of 0.1 samples. On a
  buffer with data and the flag clear, the start time of the buffer is shifted by
  exactly \<open>diff - 1 / sample_rate\<close>; with the flag set, or on a buffer without data, the
  buffer is left as it is. After a successful \<^verbatim>\<open>append\<close> onto a buffer with data, the
  start time of the buffer is the start time so corrected (or left, after a gap or
  overlap), moved on by the offset of the left trim when the maximum length is
  exceeded, and by nothing else; after a successful \<^verbatim>\<open>append\<close> onto a buffer without
  data it is the start time of the packet.
\<close>

theorem starttime_correction:
  assumes "check_times self trace gap_overlap_check verbose = Inr (gap_or_overlap, self')"
  shows "(let sr = sampling_rate (stats self);
              diff = starttime (stats trace) - endtime self;
              delta = diff * sr - 1
          in gap_or_overlap = (have_appended_data self \<and> (delta < - 0.1 \<or> delta > 0.1))
           \<and> self' = (if have_appended_data self \<and> \<not> gap_or_overlap
                       then self\<lparr>stats := (stats self)
                              \<lparr>starttime := starttime (stats self) + (diff - 1 / sr)\<rparr>\<rparr>
                       else self)
           \<and> (\<forall>signal p w r w'.
                 rt w = self \<and> coerce_float32 (traces w p) = trace
                 \<and> append signal p gap_overlap_check verbose w = (Inr r, w')
                 \<longrightarrow> starttime (stats (rt w')) =
                      (if \<not> have_appended_data self then starttime (stats trace)
                       else (if gap_or_overlap then starttime (stats self)
                             else starttime (stats self) + (diff - 1 / sr))
                          + (case max_length self of
                               None \<Rightarrow> 0
                             | Some ml \<Rightarrow>
                                 let max_samples = py_int (ml * sr + 0.5);
                                     n = int (npts self) + int (npts (traces w' p))
                                 in if n > max_samples
                                    then real_of_int (n - max_samples) / sr else 0))))"
proof -
  let ?sr = "sampling_rate (stats self)"
  let ?diff = "starttime (stats trace) - endtime self"
  let ?delta = "?diff * ?sr - 1"
  have A: "gap_or_overlap = (have_appended_data self \<and> (?delta < - 0.1 \<or> ?delta > 0.1))
     \<and> self' = (if have_appended_data self \<and> \<not> gap_or_overlap
                 then self\<lparr>stats := (stats self)
                        \<lparr>starttime := starttime (stats self) + (?diff - 1 / ?sr)\<rparr>\<rparr>
                 else self)"
  proof (cases "have_appended_data self")
    case False
    then show ?thesis using assms by (simp add: check_times_unseeded)
  next
    case True
    have rate: "?sr \<noteq> 0"
      using assms True
      by (cases "?sr = 0") (simp_all add: check_times_zero_rate)
    show ?thesis
      using assms True by (auto simp: check_times_seeded [OF True rate] Let_def split: if_splits)
  qed
  have B: "starttime (stats (rt w')) =
       (if \<not> have_appended_data self then starttime (stats trace)
        else (if gap_or_overlap then starttime (stats self)
              else starttime (stats self) + (?diff - 1 / ?sr))
           + (case max_length self of
                None \<Rightarrow> 0
              | Some ml \<Rightarrow>
                  let max_samples = py_int (ml * ?sr + 0.5);
                      n = int (npts self) + int (npts (traces w' p))
                  in if n > max_samples
                     then real_of_int (n - max_samples) / ?sr else 0))"
    if h: "rt w = self" "coerce_float32 (traces w p) = trace"
      "append signal p gap_overlap_check verbose w = (Inr r, w')" for signal p w r w'
  proof -
    let ?w1 = "w\<lparr>traces := (traces w)(p := coerce_float32 (traces w p)), rt := self'\<rparr>"
    have pm: "process_and_merge signal p gap_or_overlap ?w1 = (Inr r, w')"
      using h assms by (auto simp: append_cases split: option.splits)
    show ?thesis
    proof (cases "have_appended_data self")
      case False
      with A have s: "self' = self" by simp
      have "stats (rt w') = stats (traces ?w1 p)"
        by (rule process_and_merge_unseeded_stats [OF _ pm]) (simp add: s False)
      with False h(2) show ?thesis by simp
    next
      case True
      have fields: "have_appended_data self'" "max_length self' = max_length self"
        "sampling_rate (stats self') = ?sr" "npts self' = npts self"
        using A True by (auto simp: npts_def split: if_splits)
      have st: "starttime (stats self') =
          (if gap_or_overlap then starttime (stats self)
           else starttime (stats self) + (?diff - 1 / ?sr))"
        using A True by (auto split: if_splits)
      have "have_appended_data (rt ?w1)" using fields by simp
      from process_and_merge_starttime [OF this pm] show ?thesis
        using True by (simp add: fields st Let_def split: option.splits)
    qed
  qed
  show ?thesis using A B unfolding Let_def by blast
qed


theorem starttime_correction_witness:
  "check_times (example_buffer\<lparr>max_length := Some 0.4\<rparr>) (example_packet 0.305) True False
     = Inr (False, example_buffer\<lparr>max_length := Some 0.4,
                                  stats := example_stats\<lparr>starttime := 0.005\<rparr>\<rparr>)
   \<and> fst (append no_signal 0 True False
        (example_world (example_buffer\<lparr>max_length := Some 0.4\<rparr>) (example_packet 0.305)))
       = Inr 0
   \<and> starttime (stats (rt (snd (append no_signal 0 True False
        (example_world (example_buffer\<lparr>max_length := Some 0.4\<rparr>) (example_packet 0.305))))))
       = 0.105
   \<and> check_times example_buffer (example_packet 0.35) False False = Inr (True, example_buffer)
   \<and> fst (append no_signal 0 False False (example_world example_buffer (example_packet 0.35)))
       = Inr 0
   \<and> starttime (stats (rt (snd (append no_signal 0 False False
        (example_world example_buffer (example_packet 0.35)))))) = 0
   \<and> check_times example_fresh (example_packet 7) True False = Inr (False, example_fresh)
   \<and> starttime (stats (rt (snd (append no_signal 0 True False
        (example_world example_fresh (example_packet 7)))))) = 7"
proof -
  let ?B1 = "example_buffer\<lparr>max_length := Some 0.4\<rparr>"
  let ?W1 = "example_world ?B1 (example_packet 0.305)"
  let ?W2 = "example_world example_buffer (example_packet 0.35)"
  let ?W3 = "example_world example_fresh (example_packet 7)"
  note defs = append_def sanity_checks_def check_times_def py_div_def Let_def endtime_def
        npts_def stats_delta_def getId_def coerce_float32_def process_and_merge_def merge_def
        Trace_add_def py_int_def ltrim_def round_def example_world_def example_fresh_def
        example_packet_def example_buffer_def example_stats_def
  have c1: "check_times ?B1 (example_packet 0.305) True False
     = Inr (False, example_buffer\<lparr>max_length := Some 0.4,
                                  stats := example_stats\<lparr>starttime := 0.005\<rparr>\<rparr>)"
    by (simp add: defs)
  have c2: "check_times example_buffer (example_packet 0.35) False False
     = Inr (True, example_buffer)"
    by (simp add: defs)
  have c3: "check_times example_fresh (example_packet 7) True False = Inr (False, example_fresh)"
    by (simp add: defs)
  have f1: "fst (append no_signal 0 True False ?W1) = Inr 0" by (simp add: defs)
  have f2: "fst (append no_signal 0 False False ?W2) = Inr 0" by (simp add: defs)
  have f3: "fst (append no_signal 0 True False ?W3) = Inr 0" by (simp add: defs)
  have a1: "append no_signal 0 True False ?W1 = (Inr 0, snd (append no_signal 0 True False ?W1))"
    using f1 by (metis prod.collapse)
  have a2: "append no_signal 0 False False ?W2 = (Inr 0, snd (append no_signal 0 False False ?W2))"
    using f2 by (metis prod.collapse)
  have a3: "append no_signal 0 True False ?W3 = (Inr 0, snd (append no_signal 0 True False ?W3))"
    using f3 by (metis prod.collapse)
  have n1: "npts (traces (snd (append no_signal 0 True False ?W1)) 0) = 2"
    by (simp add: defs)
  have p1: "rt ?W1 = ?B1 \<and> coerce_float32 (traces ?W1 0) = example_packet 0.305"
    by (simp add: coerce_float32_def example_world_def example_packet_def)
  have p2: "rt ?W2 = example_buffer \<and> coerce_float32 (traces ?W2 0) = example_packet 0.35"
    by (simp add: coerce_float32_def example_world_def example_packet_def)
  have p3: "rt ?W3 = example_fresh \<and> coerce_float32 (traces ?W3 0) = example_packet 7"
    by (simp add: coerce_float32_def example_world_def example_packet_def)
  have s1: "starttime (stats (rt (snd (append no_signal 0 True False ?W1)))) = 0.105"
    using starttime_correction [OF c1, unfolded Let_def, THEN conjunct2, THEN conjunct2,
        rule_format, of ?W1 0 no_signal 0 "snd (append no_signal 0 True False ?W1)"]
      p1 a1 n1
    by (simp add: example_buffer_def example_stats_def example_packet_def endtime_def npts_def
        stats_delta_def py_int_def)
  have s2: "starttime (stats (rt (snd (append no_signal 0 False False ?W2)))) = 0"
    using starttime_correction [OF c2, unfolded Let_def, THEN conjunct2, THEN conjunct2,
        rule_format, of ?W2 0 no_signal 0 "snd (append no_signal 0 False False ?W2)"]
      p2 a2
    by (simp add: example_buffer_def example_stats_def)
  have s3: "starttime (stats (rt (snd (append no_signal 0 True False ?W3)))) = 7"
    using starttime_correction [OF c3, unfolded Let_def, THEN conjunct2, THEN conjunct2,
        rule_format, of ?W3 0 no_signal 0 "snd (append no_signal 0 True False ?W3)"]
      p3 a3
    by (simp add: example_fresh_def example_packet_def)
  show ?thesis using c1 c2 c3 f1 f2 s1 s2 s3 by blast
qed

subsection \<open>The memory of the processing in the loop after a gap or overlap\<close>

lemma check_times_processing:
  "check_times self trace chk verbose = Inr (g, self') \<Longrightarrow> processing self' = processing self"
  by (cases "have_appended_data self"; cases "sampling_rate (stats self) = 0")
     (auto simp: check_times_seeded check_times_unseeded check_times_zero_rate Let_def
       split: if_splits)

lemma run_processing_gap_some:
  "run_processing signal True p ((process_name, opts, Some l) # procs) w =
     (case invoke_process signal p
             (process_name, opts, Some [length (heap w)..<length (heap w) + length l])
             (w\<lparr>heap := heap w @ replicate (length l) RtMemory_init\<rparr>) of
        (Inl e, w1) \<Rightarrow>
          (Inl e, (process_name, opts,
                   Some [length (heap w)..<length (heap w) + length l]) # procs, w1)
      | (Inr u, w1) \<Rightarrow>
          (case run_processing signal True p procs w1 of
             (r, procs', w2) \<Rightarrow>
               (r, (process_name, opts,
                    Some [length (heap w)..<length (heap w) + length l]) # procs', w2)))"
  by (simp add: apply_process_def clear_memory_gap split: prod.splits sum.splits)

lemma run_processing_none:
  "run_processing signal g p ((process_name, opts, None) # procs) w =
     (case invoke_process signal p (process_name, opts, None) w of
        (Inl e, w1) \<Rightarrow> (Inl e, (process_name, opts, None) # procs, w1)
      | (Inr u, w1) \<Rightarrow>
          (case run_processing signal g p procs w1 of
             (r, procs', w2) \<Rightarrow> (r, (process_name, opts, None) # procs', w2)))"
  by (simp add: apply_process_def clear_memory_none split: prod.splits sum.splits)

lemma invokes_gap_entry:
  assumes "invokes signal True p procs w proc0 w0"
  shows "case snd (snd proc0) of
           Some l0 \<Rightarrow>
             distinct l0 \<and> (\<forall>a \<in> set l0. a < length (heap w0) \<and> heap w0 ! a = RtMemory_init)
         | None \<Rightarrow> proc0 \<in> set procs"
proof -
  obtain pn os ml where proc0: "proc0 = (pn, os, ml)" by (cases proc0)
  show ?thesis
  proof (cases ml)
    case None
    with invokes_none [OF assms] proc0 show ?thesis by simp
  next
    case (Some l0)
    with invokes_fresh [OF assms, of pn os l0] proc0 show ?thesis by simp
  qed
qed

text \<open>
  C2. When \<^verbatim>\<open>append\<close> has found a gap or an overlap and has not raised it, the loop over
  the registered processing runs with the flag set. In every round of that loop, an
  entry that has a list of memory slots gets a newly created, empty \<^verbatim>\<open>RtMemory\<close>
  instance in every slot before its function is called: the new instances are added to
  the heap, the slots hold their references, all different, and the instances that
  existed before stay as they were; the loop then goes on with the rest of the
  registry in the same way. An entry without a list of memory slots is called as it
  was registered. So every call that the loop makes, the one that raises included,
  gives the function only empty instances, and after a successful \<^verbatim>\<open>append\<close> every entry
  of the registry has been called in this way.
\<close>

theorem memory_reset_before_invocation:
  "run_processing signal True p ((process_name, opts, Some l) # procs) w =
     (case invoke_process signal p
             (process_name, opts, Some [length (heap w)..<length (heap w) + length l])
             (w\<lparr>heap := heap w @ replicate (length l) RtMemory_init\<rparr>) of
        (Inl e, w1) \<Rightarrow>
          (Inl e, (process_name, opts,
                   Some [length (heap w)..<length (heap w) + length l]) # procs, w1)
      | (Inr u, w1) \<Rightarrow>
          (case run_processing signal True p procs w1 of
             (r, procs', w2) \<Rightarrow>
               (r, (process_name, opts,
                    Some [length (heap w)..<length (heap w) + length l]) # procs', w2)))
   \<and> run_processing signal g p ((process_name, opts, None) # procs) w =
     (case invoke_process signal p (process_name, opts, None) w of
        (Inl e, w1) \<Rightarrow> (Inl e, (process_name, opts, None) # procs, w1)
      | (Inr u, w1) \<Rightarrow>
          (case run_processing signal g p procs w1 of
             (r, procs', w2) \<Rightarrow> (r, (process_name, opts, None) # procs', w2)))
   \<and> (\<forall>registry u registry' w'.
         run_processing signal True p registry w = (Inr u, registry', w')
         \<longrightarrow> length registry' = length registry
           \<and> (\<forall>i<length registry. \<exists>w0.
                 invokes signal True p registry w (registry' ! i) w0
                 \<and> (case snd (snd (registry' ! i)) of
                      Some l0 \<Rightarrow>
                        distinct l0
                        \<and> (\<forall>a \<in> set l0. a < length (heap w0) \<and> heap w0 ! a = RtMemory_init)
                    | None \<Rightarrow> registry' ! i \<in> set registry)))
   \<and> (\<forall>registry e registry' w'.
         run_processing signal True p registry w = (Inl e, registry', w')
         \<longrightarrow> (\<exists>proc0 w0.
                 invokes signal True p registry w proc0 w0
                 \<and> invoke_process signal p proc0 w0 = (Inl e, w')
                 \<and> (case snd (snd proc0) of
                      Some l0 \<Rightarrow>
                        distinct l0
                        \<and> (\<forall>a \<in> set l0. a < length (heap w0) \<and> heap w0 ! a = RtMemory_init)
                    | None \<Rightarrow> proc0 \<in> set registry)))
   \<and> (\<forall>registry proc0 w0 e w1.
         invokes signal True p registry w proc0 w0
         \<and> invoke_process signal p proc0 w0 = (Inl e, w1)
         \<longrightarrow> (\<exists>registry'. run_processing signal True p registry w = (Inl e, registry', w1)))
   \<and> (\<forall>self' r w'.
         sanity_checks (rt w) (coerce_float32 (traces w p)) = None
         \<and> check_times (rt w) (coerce_float32 (traces w p)) gap_overlap_check verbose
             = Inr (True, self')
         \<and> append signal p gap_overlap_check verbose w = (Inr r, w')
         \<longrightarrow> length (processing (rt w')) = length (processing (rt w))
           \<and> (\<forall>i<length (processing (rt w)). \<exists>w0.
                 invokes signal True p (processing (rt w))
                   (w\<lparr>traces := (traces w)(p := coerce_float32 (traces w p)), rt := self'\<rparr>)
                   (processing (rt w') ! i) w0
                 \<and> (case snd (snd (processing (rt w') ! i)) of
                      Some l0 \<Rightarrow>
                        distinct l0
                        \<and> (\<forall>a \<in> set l0. a < length (heap w0) \<and> heap w0 ! a = RtMemory_init)
                    | None \<Rightarrow> processing (rt w') ! i \<in> set (processing (rt w)))))"
proof -
  have C: "length registry' = length registry
           \<and> (\<forall>i<length registry. \<exists>w0.
                 invokes signal True p registry w (registry' ! i) w0
                 \<and> (case snd (snd (registry' ! i)) of
                      Some l0 \<Rightarrow>
                        distinct l0
                        \<and> (\<forall>a \<in> set l0. a < length (heap w0) \<and> heap w0 ! a = RtMemory_init)
                    | None \<Rightarrow> registry' ! i \<in> set registry))"
    if rp: "run_processing signal True p registry w = (Inr u, registry', w')"
    for registry u registry' w' and w :: world
  proof (intro conjI allI impI)
    show "length registry' = length registry" by (rule run_processing_length [OF rp])
  next
    fix i assume "i < length registry"
    with run_processing_all_invoked [OF rp] obtain w0 where
      inv: "invokes signal True p registry w (registry' ! i) w0" by blast
    from invokes_gap_entry [OF inv] inv
    show "\<exists>w0. invokes signal True p registry w (registry' ! i) w0
                 \<and> (case snd (snd (registry' ! i)) of
                      Some l0 \<Rightarrow>
                        distinct l0
                        \<and> (\<forall>a \<in> set l0. a < length (heap w0) \<and> heap w0 ! a = RtMemory_init)
                    | None \<Rightarrow> registry' ! i \<in> set registry)"
      by blast
  qed
  have D: "\<exists>proc0 w0.
                 invokes signal True p registry w proc0 w0
                 \<and> invoke_process signal p proc0 w0 = (Inl e, w')
                 \<and> (case snd (snd proc0) of
                      Some l0 \<Rightarrow>
                        distinct l0
                        \<and> (\<forall>a \<in> set l0. a < length (heap w0) \<and> heap w0 ! a = RtMemory_init)
                    | None \<Rightarrow> proc0 \<in> set registry)"
    if rp: "run_processing signal True p registry w = (Inl e, registry', w')"
    for registry e registry' w'
  proof -
    have ne: "registry \<noteq> []" using rp by auto
    from run_processing_last_call [OF ne rp] obtain proc0 w0 where
      inv: "invokes signal True p registry w proc0 w0"
      and call: "invoke_process signal p proc0 w0 = (Inl e, w')" by blast
    from invokes_gap_entry [OF inv] inv call show ?thesis by blast
  qed
  have E: "\<exists>registry'. run_processing signal True p registry w = (Inl e, registry', w1)"
    if "invokes signal True p registry w proc0 w0"
      "invoke_process signal p proc0 w0 = (Inl e, w1)" for registry proc0 w0 e w1
    using that by (rule invokes_failure)
  have F: "length (processing (rt w')) = length (processing (rt w))
           \<and> (\<forall>i<length (processing (rt w)). \<exists>w0.
                 invokes signal True p (processing (rt w))
                   (w\<lparr>traces := (traces w)(p := coerce_float32 (traces w p)), rt := self'\<rparr>)
                   (processing (rt w') ! i) w0
                 \<and> (case snd (snd (processing (rt w') ! i)) of
                      Some l0 \<Rightarrow>
                        distinct l0
                        \<and> (\<forall>a \<in> set l0. a < length (heap w0) \<and> heap w0 ! a = RtMemory_init)
                    | None \<Rightarrow> processing (rt w') ! i \<in> set (processing (rt w))))"
    if sc: "sanity_checks (rt w) (coerce_float32 (traces w p)) = None"
      and ct: "check_times (rt w) (coerce_float32 (traces w p)) gap_overlap_check verbose
             = Inr (True, self')"
      and ap: "append signal p gap_overlap_check verbose w = (Inr r, w')" for self' r w'
  proof -
    let ?w1 = "w\<lparr>traces := (traces w)(p := coerce_float32 (traces w p)), rt := self'\<rparr>"
    have pm: "process_and_merge signal p True ?w1 = (Inr r, w')"
      using ap sc ct by (simp add: append_cases)
    have pr: "processing self' = processing (rt w)" by (rule check_times_processing [OF ct])
    from process_and_merge_success [OF pm] obtain registry' w2 u self'' where
      rp: "run_processing signal True p (processing (rt w)) ?w1 = (Inr (), registry', w2)"
      and m: "merge (self'\<lparr>processing := registry'\<rparr>) (traces w2 p) = (Inr u, self'')"
      and w': "w' = w2\<lparr>rt := self''\<lparr>have_appended_data := True\<rparr>\<rparr>"
      by (auto simp: pr)
    have pe: "processing (rt w') = registry'" using merge_processing [OF m] by (simp add: w')
    show ?thesis unfolding pe by (rule C [OF rp])
  qed
  show ?thesis
    using run_processing_gap_some [of signal p process_name opts l procs w]
      run_processing_none [of signal g p process_name opts procs w] C D E F
    by blast
qed


lemma lower_scale: "lower ''scale'' = ''scale''"
  by code_simp

lemma lower_integrate: "lower ''integrate'' = ''integrate''"
  by code_simp

theorem memory_reset_before_invocation_witness:
  "fst (append example_signal 0 False False (registry_world 0.35)) = Inr 0
   \<and> data (traces (snd (append example_signal 0 False False (registry_world 0.35))) 0)
       = \<lparr>dtype = Float32, vals = [8, 10]\<rparr>
   \<and> processing (rt (snd (append example_signal 0 False False (registry_world 0.35))))
       = [(Predefined ''scale'', [], None), (Predefined ''integrate'', [], Some [1])]
   \<and> heap (snd (append example_signal 0 False False (registry_world 0.35)))
       = [used_memory, \<lparr>initialized = True, mem_input = [8, 10], mem_output = [18]\<rparr>]
   \<and> (\<exists>w0. invokes example_signal True 0 example_registry (registry_world 0.35)
              (Predefined ''integrate'', [], Some [1]) w0
            \<and> heap w0 ! 1 = RtMemory_init)
   \<and> data (traces (snd (append example_signal 0 False False (registry_world 0.305))) 0)
       = \<lparr>dtype = Float32, vals = [14, 16]\<rparr>"
proof -
  let ?W = "registry_world 0.35"
  note defs = append_def sanity_checks_def check_times_def py_div_def Let_def endtime_def
        npts_def stats_delta_def getId_def coerce_float32_def process_and_merge_def merge_def
        Trace_add_def apply_process_def clear_memory_def invoke_process_def set_data_def
        REALTIME_PROCESS_FUNCTIONS_def lower_scale lower_integrate example_signal_def
        example_scale_def example_integrate_def used_memory_def RtMemory_init_def
        registry_world_def example_registry_def
        example_packet_def example_buffer_def example_stats_def
  have f: "fst (append example_signal 0 False False ?W) = Inr 0"
    by (simp add: defs)
  have d: "data (traces (snd (append example_signal 0 False False ?W)) 0)
       = \<lparr>dtype = Float32, vals = [8, 10]\<rparr>"
    by (simp add: defs)
  have r: "processing (rt (snd (append example_signal 0 False False ?W)))
       = [(Predefined ''scale'', [], None), (Predefined ''integrate'', [], Some [1])]"
    by (simp add: defs)
  have h: "heap (snd (append example_signal 0 False False ?W))
       = [used_memory, \<lparr>initialized = True, mem_input = [8, 10], mem_output = [18]\<rparr>]"
    by (simp add: defs)
  have c: "data (traces (snd (append example_signal 0 False False (registry_world 0.305))) 0)
       = \<lparr>dtype = Float32, vals = [14, 16]\<rparr>"
    by (simp add: defs)
  have a: "append example_signal 0 False False ?W
      = (Inr 0, snd (append example_signal 0 False False ?W))"
    using f by (metis prod.collapse)
  have sc: "sanity_checks (rt ?W) (coerce_float32 (traces ?W 0)) = None"
    by (simp add: defs)
  have ct: "check_times (rt ?W) (coerce_float32 (traces ?W 0)) False False = Inr (True, rt ?W)"
    by (simp add: defs)
  have w1: "?W\<lparr>traces := (traces ?W)(0 := coerce_float32 (traces ?W 0)), rt := rt ?W\<rparr> = ?W"
    by (simp add: registry_world_def coerce_float32_def example_packet_def fun_eq_iff)
  have pr: "processing (rt ?W) = example_registry" by (simp add: registry_world_def)
  note last = memory_reset_before_invocation [of example_signal 0 "Predefined ''scale''" "[]"
      "[]" "[]" ?W True False False, THEN conjunct2, THEN conjunct2, THEN conjunct2,
      THEN conjunct2, THEN conjunct2, rule_format]
  have one: "(1::nat) < length (processing (rt ?W))"
    by (simp add: registry_world_def example_registry_def)
  from last [OF conjI [OF sc conjI [OF ct a]], THEN conjunct2, rule_format, OF one]
  obtain w0 where
    inv: "invokes example_signal True 0 (processing (rt ?W))
            (?W\<lparr>traces := (traces ?W)(0 := coerce_float32 (traces ?W 0)), rt := rt ?W\<rparr>)
            (processing (rt (snd (append example_signal 0 False False ?W))) ! 1) w0"
    and fr: "case snd (snd (processing (rt (snd (append example_signal 0 False False ?W))) ! 1)) of
                Some l0 \<Rightarrow>
                  distinct l0
                  \<and> (\<forall>a \<in> set l0. a < length (heap w0) \<and> heap w0 ! a = RtMemory_init)
              | None \<Rightarrow> processing (rt (snd (append example_signal 0 False False ?W))) ! 1
                          \<in> set (processing (rt ?W))"
    by blast
  have inv': "invokes example_signal True 0 example_registry ?W
              (Predefined ''integrate'', [], Some [1]) w0"
    using inv unfolding w1 r pr by simp
  have "heap w0 ! 1 = RtMemory_init" using fr unfolding r by simp
  with inv' have i: "\<exists>w0. invokes example_signal True 0 example_registry ?W
              (Predefined ''integrate'', [], Some [1]) w0
            \<and> heap w0 ! 1 = RtMemory_init"
    by blast
  show ?thesis using f d r h i c by blast
qed

subsection \<open>The packet of the caller after the loop\<close>

lemma callable_entry_simp: "callable_entry (nm, f, opts) = (Callable nm f, opts, None)"
  by (simp add: callable_entry_def)

lemma run_processing_callables:
  "run_processing signal g p (map callable_entry cs) w = (Inr u, registry', w') \<Longrightarrow>
   apply_callables cs (data (traces w p)) = Inr (data (traces w' p))"
proof (induction cs arbitrary: w registry' w')
  case Nil
  then show ?case by simp
next
  case (Cons c cs)
  obtain nm f opts where c: "c = (nm, f, opts)" by (cases c)
  have m: "map callable_entry (c # cs) = (Callable nm f, opts, None) # map callable_entry cs"
    by (simp only: list.map c callable_entry_simp)
  obtain r1 e1 w1 where
    ap: "apply_process signal g p (Callable nm f, opts, None) w = (r1, e1, w1)"
    by (metis prod_cases3)
  obtain r2 procs2 w2 where
    rec: "run_processing signal g p (map callable_entry cs) w1 = (r2, procs2, w2)"
    by (metis prod_cases3)
  from Cons.prems [unfolded m] ap rec have r1: "r1 = Inr ()" and r2: "r2 = Inr u" and w2: "w2 = w'"
    by (auto split: sum.splits)
  from ap r1 obtain d where fd: "f (data (traces w p)) opts = Inr d" and w1: "w1 = set_data p d w"
    by (auto simp: apply_process_def clear_memory_def invoke_process_def
        split: prod.splits sum.splits)
  have d1: "data (traces w1 p) = d" by (simp add: w1 traces_set_data)
  from rec r2 w2 have "run_processing signal g p (map callable_entry cs) w1 = (Inr u, procs2, w')"
    by simp
  from Cons.IH [OF this] have "apply_callables cs d = Inr (data (traces w' p))"
    by (simp only: d1)
  with fd show ?case by (simp add: c)
qed

text \<open>
  C10. \<^verbatim>\<open>append\<close> changes the packet object of the caller in place and no other
  \<^verbatim>\<open>Trace\<close> object; the header of the packet stays as it is. When a check raises, the
  data of a single-precision packet have already been replaced by their float32
  conversion, and with no processing registered the conversion is all that happens to
  the packet. The result of every processing function that returns becomes the data of
  the packet, for the next one to see: after a successful \<^verbatim>\<open>append\<close> the data of the
  packet are what the function of the last entry of the registry returned for the
  packet as the loop over the entries before it had left it, and for a registry of
  callables they are the result of applying the callables one after the other to the
  converted data of the packet. The value returned by a successful call is the
  reference of the packet that was passed in: the same object, not a copy.
\<close>

theorem append_mutates_packet:
  "(let trace = traces w p; res = append signal p gap_overlap_check verbose w
    in (\<forall>q. q \<noteq> p \<longrightarrow> traces (snd res) q = traces w q)
     \<and> stats (traces (snd res) p) = stats trace
     \<and> (sanity_checks (rt w) (coerce_float32 trace) \<noteq> None
          \<or> isl (check_times (rt w) (coerce_float32 trace) gap_overlap_check verbose)
        \<longrightarrow> isl (fst res) \<and> traces (snd res) p = coerce_float32 trace)
     \<and> (processing (rt w) = [] \<longrightarrow> traces (snd res) p = coerce_float32 trace)
     \<and> (\<forall>r. fst res = Inr r \<longrightarrow> r = p)
     \<and> (\<forall>g nm f opts ml w0 u proc' w0'.
           apply_process signal g p (Callable nm f, opts, ml) w0 = (Inr u, proc', w0')
           \<longrightarrow> f (data (traces w0 p)) opts = Inr (data (traces w0' p)))
     \<and> (\<forall>g name opts ml w0 u proc' w0'.
           apply_process signal g p (Predefined name, opts, ml) w0 = (Inr u, proc', w0')
           \<longrightarrow> (\<exists>func num. map_of (REALTIME_PROCESS_FUNCTIONS signal) (lower name)
                               = Some (func, num)
                 \<and> fst (func (traces w0 p) (fst (clear_memory g ml (heap w0))) opts
                         (snd (clear_memory g ml (heap w0))))
                   = Inr (data (traces w0' p))))
     \<and> (\<forall>procs process_name opts ml r.
           processing (rt w) = procs @ [(process_name, opts, ml)] \<and> fst res = Inr r
           \<longrightarrow> (\<exists>g self' procs' w1.
                 check_times (rt w) (coerce_float32 trace) gap_overlap_check verbose
                   = Inr (g, self')
                 \<and> run_processing signal g p procs
                       (w\<lparr>traces := (traces w)(p := coerce_float32 trace), rt := self'\<rparr>)
                     = (Inr (), procs', w1)
                 \<and> (case process_name of
                        Callable nm f \<Rightarrow>
                          f (data (traces w1 p)) opts = Inr (data (traces (snd res) p))
                      | Predefined name \<Rightarrow>
                          (\<exists>func num.
                             map_of (REALTIME_PROCESS_FUNCTIONS signal) (lower name)
                               = Some (func, num)
                             \<and> fst (func (traces w1 p) (fst (clear_memory g ml (heap w1))) opts
                                     (snd (clear_memory g ml (heap w1))))
                               = Inr (data (traces (snd res) p))))))
     \<and> (\<forall>cs r.
           processing (rt w) = map callable_entry cs \<and> fst res = Inr r
           \<longrightarrow> apply_callables cs (data (coerce_float32 trace))
                 = Inr (data (traces (snd res) p))))"
proof -
  let ?trace = "traces w p"
  let ?res = "append signal p gap_overlap_check verbose w"
  let ?w1 = "w\<lparr>traces := (traces w)(p := coerce_float32 (traces w p))\<rparr>"
  have stats_co: "stats (coerce_float32 t) = stats t" for t by (simp add: coerce_float32_def)
  have A: "(\<forall>q. q \<noteq> p \<longrightarrow> traces (snd ?res) q = traces w q)
     \<and> stats (traces (snd ?res) p) = stats ?trace"
  proof (cases "sanity_checks (rt w) (coerce_float32 ?trace)")
    case (Some e) then show ?thesis by (simp add: append_cases stats_co)
  next
    case None
    show ?thesis
    proof (cases "check_times (rt w) (coerce_float32 ?trace) gap_overlap_check verbose")
      case (Inl e) with None show ?thesis by (simp add: append_cases stats_co)
    next
      case (Inr gs)
      obtain g self' where gs: "gs = (g, self')" by (cases gs)
      obtain r w' where pm: "process_and_merge signal p g (?w1\<lparr>rt := self'\<rparr>) = (r, w')"
        by (cases "process_and_merge signal p g (?w1\<lparr>rt := self'\<rparr>)")
      have "?res = (r, w')" using None Inr gs pm by (simp add: append_cases)
      with process_and_merge_traces [OF pm] show ?thesis by (simp add: stats_co)
    qed
  qed
  have B: "sanity_checks (rt w) (coerce_float32 ?trace) \<noteq> None
          \<or> isl (check_times (rt w) (coerce_float32 ?trace) gap_overlap_check verbose)
        \<longrightarrow> isl (fst ?res) \<and> traces (snd ?res) p = coerce_float32 ?trace"
    by (auto simp: append_cases isl_def split: option.splits)
  have C: "processing (rt w) = [] \<longrightarrow> traces (snd ?res) p = coerce_float32 ?trace"
  proof
    assume nil: "processing (rt w) = []"
    have pr: "processing self' = []"
      if "check_times (rt w) tr gap_overlap_check verbose = Inr (g, self')" for tr g self'
      using that nil
      by (cases "have_appended_data (rt w)"; cases "sampling_rate (stats (rt w)) = 0")
         (auto simp: check_times_seeded check_times_unseeded check_times_zero_rate Let_def
           split: if_splits)
    show "traces (snd ?res) p = coerce_float32 ?trace"
      by (auto simp: append_cases process_and_merge_def Let_def pr
          split: option.splits sum.splits prod.splits)
  qed
  have D: "\<forall>r. fst ?res = Inr r \<longrightarrow> r = p"
    by (auto simp: append_cases split: option.splits sum.splits prod.splits
        dest: process_and_merge_returns) (metis fst_conv process_and_merge_returns prod.collapse)
  have E: "f (data (traces w0 p)) opts = Inr (data (traces w0' p))"
    if "apply_process signal g p (Callable nm f, opts, ml) w0 = (Inr u, proc', w0')"
    for g nm f opts ml w0 u proc' w0'
    using that
    by (auto simp: apply_process_def invoke_process_def traces_set_data
        split: prod.splits sum.splits)
  have F: "\<exists>func num. map_of (REALTIME_PROCESS_FUNCTIONS signal) (lower name) = Some (func, num)
                 \<and> fst (func (traces w0 p) (fst (clear_memory g ml (heap w0))) opts
                         (snd (clear_memory g ml (heap w0))))
                   = Inr (data (traces w0' p))"
    if "apply_process signal g p (Predefined name, opts, ml) w0 = (Inr u, proc', w0')"
    for g name opts ml w0 u proc' w0'
    using that
    by (auto simp: apply_process_def invoke_process_def traces_set_data
        split: prod.splits sum.splits option.splits)
  have G: "\<exists>g self' procs' w1.
                 check_times (rt w) (coerce_float32 ?trace) gap_overlap_check verbose
                   = Inr (g, self')
                 \<and> run_processing signal g p procs
                       (w\<lparr>traces := (traces w)(p := coerce_float32 ?trace), rt := self'\<rparr>)
                     = (Inr (), procs', w1)
                 \<and> (case process_name of
                        Callable nm f \<Rightarrow>
                          f (data (traces w1 p)) opts = Inr (data (traces (snd ?res) p))
                      | Predefined name \<Rightarrow>
                          (\<exists>func num.
                             map_of (REALTIME_PROCESS_FUNCTIONS signal) (lower name)
                               = Some (func, num)
                             \<and> fst (func (traces w1 p) (fst (clear_memory g ml (heap w1))) opts
                                     (snd (clear_memory g ml (heap w1))))
                               = Inr (data (traces (snd ?res) p))))"
    if reg: "processing (rt w) = procs @ [(process_name, opts, ml)]" and ok: "fst ?res = Inr r"
    for procs process_name opts ml r
  proof -
    from ok obtain w' where res: "?res = (Inr r, w')" by (metis prod.collapse)
    from res obtain g self' where
      ct: "check_times (rt w) (coerce_float32 ?trace) gap_overlap_check verbose = Inr (g, self')"
      and pm: "process_and_merge signal p g
          (w\<lparr>traces := (traces w)(p := coerce_float32 ?trace), rt := self'\<rparr>) = (Inr r, w')"
      by (auto simp: append_cases split: option.splits sum.splits)
    let ?w1 = "w\<lparr>traces := (traces w)(p := coerce_float32 ?trace), rt := self'\<rparr>"
    have pr: "processing self' = procs @ [(process_name, opts, ml)]"
      using check_times_processing [OF ct] reg by simp
    from process_and_merge_success [OF pm] obtain registry' w2 u self'' where
      rp: "run_processing signal g p (procs @ [(process_name, opts, ml)]) ?w1
             = (Inr (), registry', w2)"
      and w': "w' = w2\<lparr>rt := self''\<lparr>have_appended_data := True\<rparr>\<rparr>"
      by (auto simp: pr)
    obtain r1 procs1 w1 where r1: "run_processing signal g p procs ?w1 = (r1, procs1, w1)"
      by (metis prod_cases3)
    obtain r2 last' w2' where
      ap: "apply_process signal g p (process_name, opts, ml) w1 = (r2, last', w2')"
      by (metis prod_cases3)
    from rp r1 ap have s1: "r1 = Inr ()" and s2: "r2 = Inr ()" and ws: "w2' = w2"
      by (auto simp: run_processing_append split: sum.splits)
    have tr: "traces (snd ?res) = traces w2" by (simp add: res w')
    have out: "case process_name of
                 Callable nm f \<Rightarrow>
                   f (data (traces w1 p)) opts = Inr (data (traces w2 p))
               | Predefined name \<Rightarrow>
                   (\<exists>func num.
                      map_of (REALTIME_PROCESS_FUNCTIONS signal) (lower name) = Some (func, num)
                      \<and> fst (func (traces w1 p) (fst (clear_memory g ml (heap w1))) opts
                              (snd (clear_memory g ml (heap w1))))
                        = Inr (data (traces w2 p)))"
    proof (cases process_name)
      case (Callable nm f)
      with E [of g nm f opts ml w1 "()" last' w2] ap s2 ws show ?thesis by simp
    next
      case (Predefined name)
      with F [of g name opts ml w1 "()" last' w2] ap s2 ws show ?thesis by simp
    qed
    show ?thesis
      using ct r1 s1 out unfolding tr by blast
  qed
  have H: "apply_callables cs (data (coerce_float32 ?trace)) = Inr (data (traces (snd ?res) p))"
    if reg: "processing (rt w) = map callable_entry cs" and ok: "fst ?res = Inr r" for cs r
  proof -
    from ok obtain w' where res: "?res = (Inr r, w')" by (metis prod.collapse)
    from res obtain g self' where
      ct: "check_times (rt w) (coerce_float32 ?trace) gap_overlap_check verbose = Inr (g, self')"
      and pm: "process_and_merge signal p g
          (w\<lparr>traces := (traces w)(p := coerce_float32 ?trace), rt := self'\<rparr>) = (Inr r, w')"
      by (auto simp: append_cases split: option.splits sum.splits)
    let ?w1 = "w\<lparr>traces := (traces w)(p := coerce_float32 ?trace), rt := self'\<rparr>"
    have pr: "processing self' = map callable_entry cs"
      using check_times_processing [OF ct] reg by simp
    from process_and_merge_success [OF pm] obtain registry' w2 u self'' where
      rp: "run_processing signal g p (map callable_entry cs) ?w1 = (Inr (), registry', w2)"
      and w': "w' = w2\<lparr>rt := self''\<lparr>have_appended_data := True\<rparr>\<rparr>"
      by (auto simp: pr)
    have "apply_callables cs (data (traces ?w1 p)) = Inr (data (traces w2 p))"
      by (rule run_processing_callables [OF rp])
    then show ?thesis by (simp add: res w')
  qed
  have E': "\<forall>g nm f opts ml w0 u proc' w0'.
           apply_process signal g p (Callable nm f, opts, ml) w0 = (Inr u, proc', w0')
           \<longrightarrow> f (data (traces w0 p)) opts = Inr (data (traces w0' p))"
    using E by blast
  have F': "\<forall>g name opts ml w0 u proc' w0'.
           apply_process signal g p (Predefined name, opts, ml) w0 = (Inr u, proc', w0')
           \<longrightarrow> (\<exists>func num. map_of (REALTIME_PROCESS_FUNCTIONS signal) (lower name)
                               = Some (func, num)
                 \<and> fst (func (traces w0 p) (fst (clear_memory g ml (heap w0))) opts
                         (snd (clear_memory g ml (heap w0))))
                   = Inr (data (traces w0' p)))"
    using F by blast
  show ?thesis
    unfolding Let_def
  proof (intro conjI)
    show "\<forall>q. q \<noteq> p \<longrightarrow> traces (snd ?res) q = traces w q" using A by blast
    show "stats (traces (snd ?res) p) = stats ?trace" using A by blast
    show "sanity_checks (rt w) (coerce_float32 ?trace) \<noteq> None
          \<or> isl (check_times (rt w) (coerce_float32 ?trace) gap_overlap_check verbose)
        \<longrightarrow> isl (fst ?res) \<and> traces (snd ?res) p = coerce_float32 ?trace"
      by (rule B)
    show "processing (rt w) = [] \<longrightarrow> traces (snd ?res) p = coerce_float32 ?trace" by (rule C)
    show "\<forall>r. fst ?res = Inr r \<longrightarrow> r = p" by (rule D)
    show "\<forall>g nm f opts ml w0 u proc' w0'.
           apply_process signal g p (Callable nm f, opts, ml) w0 = (Inr u, proc', w0')
           \<longrightarrow> f (data (traces w0 p)) opts = Inr (data (traces w0' p))"
      by (rule E')
    show "\<forall>g name opts ml w0 u proc' w0'.
           apply_process signal g p (Predefined name, opts, ml) w0 = (Inr u, proc', w0')
           \<longrightarrow> (\<exists>func num. map_of (REALTIME_PROCESS_FUNCTIONS signal) (lower name)
                               = Some (func, num)
                 \<and> fst (func (traces w0 p) (fst (clear_memory g ml (heap w0))) opts
                         (snd (clear_memory g ml (heap w0))))
                   = Inr (data (traces w0' p)))"
      by (rule F')
    show "\<forall>procs process_name opts ml r.
           processing (rt w) = procs @ [(process_name, opts, ml)] \<and> fst ?res = Inr r
           \<longrightarrow> (\<exists>g self' procs' w1.
                 check_times (rt w) (coerce_float32 ?trace) gap_overlap_check verbose
                   = Inr (g, self')
                 \<and> run_processing signal g p procs
                       (w\<lparr>traces := (traces w)(p := coerce_float32 ?trace), rt := self'\<rparr>)
                     = (Inr (), procs', w1)
                 \<and> (case process_name of
                        Callable nm f \<Rightarrow>
                          f (data (traces w1 p)) opts = Inr (data (traces (snd ?res) p))
                      | Predefined name \<Rightarrow>
                          (\<exists>func num.
                             map_of (REALTIME_PROCESS_FUNCTIONS signal) (lower name)
                               = Some (func, num)
                             \<and> fst (func (traces w1 p) (fst (clear_memory g ml (heap w1))) opts
                                     (snd (clear_memory g ml (heap w1))))
                               = Inr (data (traces (snd ?res) p)))))"
      using G by blast
    show "\<forall>cs r.
           processing (rt w) = map callable_entry cs \<and> fst ?res = Inr r
           \<longrightarrow> apply_callables cs (data (coerce_float32 ?trace))
                 = Inr (data (traces (snd ?res) p))"
      using H by blast
  qed
qed




theorem append_mutates_packet_witness:
  "isl (fst (append no_signal 0 True False (example_world example_buffer (swapped_packet 0.3))))
   \<and> traces (snd (append no_signal 0 True False
        (example_world example_buffer (swapped_packet 0.3)))) 0
       = (swapped_packet 0.3)\<lparr>data := \<lparr>dtype = Float32, vals = [4, 5]\<rparr>\<rparr>
   \<and> fst (append no_signal 0 True False
        (example_world
           (example_buffer\<lparr>processing :=
              [(doubling_process, [], None), (doubling_process, [], None)]\<rparr>)
           (f4_packet 0.305))) = Inr 0
   \<and> traces (snd (append no_signal 0 True False
        (example_world
           (example_buffer\<lparr>processing :=
              [(doubling_process, [], None), (doubling_process, [], None)]\<rparr>)
           (f4_packet 0.305)))) 0
       = \<lparr>data = \<lparr>dtype = Float32, vals = [16, 20]\<rparr>,
          stats = example_stats\<lparr>starttime := 0.305\<rparr>\<rparr>
   \<and> vals (data (rt (snd (append no_signal 0 True False
        (example_world
           (example_buffer\<lparr>processing :=
              [(doubling_process, [], None), (doubling_process, [], None)]\<rparr>)
           (f4_packet 0.305)))))) = [1, 2, 3, 16, 20]"
proof -
  let ?W1 = "example_world example_buffer (swapped_packet 0.3)"
  let ?W2 = "example_world
           (example_buffer\<lparr>processing :=
              [(doubling_process, [], None), (doubling_process, [], None)]\<rparr>)
           (f4_packet 0.305)"
  let ?dbl = "\<lambda>(d::ndarray) (opts::options). Inr (d\<lparr>vals := map (\<lambda>x. 2 * x) (vals d)\<rparr>)
                 :: string + ndarray"
  note defs = append_def sanity_checks_def check_times_def py_div_def Let_def endtime_def
        npts_def stats_delta_def getId_def coerce_float32_def process_and_merge_def merge_def
        Trace_add_def apply_process_def clear_memory_def invoke_process_def set_data_def
        doubling_process_def example_world_def f4_packet_def swapped_packet_def
        example_packet_def example_buffer_def example_stats_def
  note t1 = append_mutates_packet [of ?W1 0 no_signal True False, unfolded Let_def]
  note t2 = append_mutates_packet [of ?W2 0 no_signal True False, unfolded Let_def]
  have s: "sanity_checks (rt ?W1) (coerce_float32 (traces ?W1 0)) \<noteq> None"
    by (simp add: defs)
  have c: "coerce_float32 (traces ?W1 0)
      = (swapped_packet 0.3)\<lparr>data := \<lparr>dtype = Float32, vals = [4, 5]\<rparr>\<rparr>"
    by (simp add: coerce_float32_def example_world_def swapped_packet_def)
  have one: "isl (fst (append no_signal 0 True False ?W1))
     \<and> traces (snd (append no_signal 0 True False ?W1)) 0
         = (swapped_packet 0.3)\<lparr>data := \<lparr>dtype = Float32, vals = [4, 5]\<rparr>\<rparr>"
    using t1 [THEN conjunct2, THEN conjunct2, THEN conjunct1] s c by metis
  have ok: "\<exists>r. fst (append no_signal 0 True False ?W2) = Inr r"
    by (simp add: defs)
  then obtain r where r: "fst (append no_signal 0 True False ?W2) = Inr r" ..
  have r0: "r = 0"
    using t2 [THEN conjunct2, THEN conjunct2, THEN conjunct2, THEN conjunct2, THEN conjunct1] r
    by blast
  have two: "fst (append no_signal 0 True False ?W2) = Inr 0" using r r0 by simp
  have reg: "processing (rt ?W2) = map callable_entry [(''double'', ?dbl, []), (''double'', ?dbl, [])]"
    by (simp add: example_world_def doubling_process_def callable_entry_simp)
  have out: "apply_callables [(''double'', ?dbl, []), (''double'', ?dbl, [])]
        (data (coerce_float32 (traces ?W2 0)))
      = Inr (data (traces (snd (append no_signal 0 True False ?W2)) 0))"
    using t2 [THEN conjunct2, THEN conjunct2, THEN conjunct2, THEN conjunct2, THEN conjunct2,
        THEN conjunct2, THEN conjunct2, THEN conjunct2, rule_format,
        of "[(''double'', ?dbl, []), (''double'', ?dbl, [])]" 0]
      reg two by blast
  have ev: "apply_callables [(''double'', ?dbl, []), (''double'', ?dbl, [])]
        (data (coerce_float32 (traces ?W2 0))) = Inr \<lparr>dtype = Float32, vals = [16, 20]\<rparr>"
    by (simp add: coerce_float32_def example_world_def f4_packet_def)
  have d: "data (traces (snd (append no_signal 0 True False ?W2)) 0)
      = \<lparr>dtype = Float32, vals = [16, 20]\<rparr>"
    using out ev by simp
  have st: "stats (traces (snd (append no_signal 0 True False ?W2)) 0)
      = example_stats\<lparr>starttime := 0.305\<rparr>"
    using t2 [THEN conjunct2, THEN conjunct1] by (simp add: example_world_def f4_packet_def)
  have three: "traces (snd (append no_signal 0 True False ?W2)) 0
       = \<lparr>data = \<lparr>dtype = Float32, vals = [16, 20]\<rparr>,
          stats = example_stats\<lparr>starttime := 0.305\<rparr>\<rparr>"
    using d st by (intro Trace.equality) simp_all
  have four: "vals (data (rt (snd (append no_signal 0 True False ?W2)))) = [1, 2, 3, 16, 20]"
    by (simp add: defs)
  show ?thesis using one two three four by blast
qed

end
